theory Spec2Isabelle
  imports Main
begin

section \<open>Python values and the environment of a request\<close>

text \<open>
  A Python \<open>str\<close> is a sequence of Unicode code points, so it is modelled as a list of
  natural numbers; \<open>ascii\<close> turns an ASCII literal into such a list. Python's \<open>int\<close> is
  unbounded and is modelled by \<open>int\<close>.
\<close>

type_synonym pystr = "nat list"

definition ascii :: "string \<Rightarrow> pystr" where
  "ascii s = map of_char s"

text \<open>
  A \<open>datetime.date\<close> is modelled by its proleptic Gregorian ordinal
  (\<open>date.toordinal()\<close>): \<open>date.min\<close> is 1 and \<open>date.max\<close> is 3652059. A
  \<open>datetime.time\<close> and an aware \<open>datetime\<close> are natural numbers (microseconds since
  midnight, respectively since the epoch); only their identity matters below.
\<close>

type_synonym pydate = int
type_synonym pytime = nat
type_synonym pydatetime = nat

datatype error =
    ValidationError pystr
  | DoesNotExist
  | MultipleObjectsReturned
  | IntegrityError
  | DatabaseError
  | ValueError
  | OverflowError

text \<open>What \<open>client.post\<close> of httpx does: it returns a response or raises.\<close>

datatype http_outcome =
    Http_response nat pystr
  | Http_raised

text \<open>
  Everything a request reads that is not in the repository: the clock, the process
  environment, the Telegram endpoint, and the library functions whose tables belong to
  CPython (the Unicode classes behind \<open>str.strip\<close> and the \<open>\D\<close> of \<open>re\<close>, \<open>int\<close> of a
  string, \<open>str\<close> of a date and of a time, \<open>strftime("%H:%M")\<close>). They are parameters of
  the model: every theorem below holds for all of them.
\<close>

record env =
  today :: pydate
  now :: pydatetime
  TELEGRAM_BOT_TOKEN :: "pystr option"
  client_post :: "pystr \<Rightarrow> int \<Rightarrow> pystr \<Rightarrow> http_outcome"
  py_isspace :: "nat \<Rightarrow> bool"
  re_digit :: "nat \<Rightarrow> bool"
  py_int :: "pystr \<Rightarrow> int option"
  str_date :: "pydate \<Rightarrow> pystr"
  str_time :: "pytime \<Rightarrow> pystr"
  strftime_HM :: "pytime \<Rightarrow> pystr"

section \<open>The models of \<open>core/models.py\<close>\<close>

datatype SlotStatus = FREE | BUSY

datatype AppointmentStatus = ACTIVE | CANCELLED_MANAGER | CANCELLED_USER

text \<open>
  One record per model class. An object that was never saved has no primary key
  (\<open>self.id is None\<close>), so the key of an \<open>automobile\<close> and of an \<open>appointment\<close> object is
  optional; drivers and slots are only ever read from the database by this code. The
  fields filled by \<open>auto_now_add\<close> and \<open>auto_now\<close> are empty until the first save.
\<close>

record automobile =
  au_id :: "nat option"
  plate_number :: pystr
  au_make :: pystr
  au_model :: pystr
  last_service_mileage :: int
  service_interval_km :: int
  next_service_mileage :: int
  au_created_at :: "pydatetime option"
  au_updated_at :: "pydatetime option"

record driver =
  d_id :: nat
  first_name :: pystr
  last_name :: pystr
  phone :: pystr
  d_car_id :: nat
  chat_id :: "int option"

record slot =
  s_id :: nat
  s_date :: pydate
  s_time :: pytime
  s_status :: SlotStatus

text \<open>
  An \<open>appointment\<close> is the Python object: it holds the related objects it was built or
  loaded with, and their fields are the values read at that moment. An
  \<open>appointment_row\<close> is the row of the table, which holds the foreign keys.
\<close>

record appointment =
  ap_id :: "nat option"
  ap_slot :: slot
  ap_driver :: driver
  ap_car :: automobile
  ap_status :: AppointmentStatus
  ap_created_at :: "pydatetime option"
  ap_updated_at :: "pydatetime option"

record appointment_row =
  r_id :: nat
  r_slot_id :: nat
  r_driver_id :: nat
  r_car_id :: nat
  r_status :: AppointmentStatus
  r_created_at :: "pydatetime option"
  r_updated_at :: "pydatetime option"

record notification =
  n_id :: nat
  n_driver_id :: nat
  n_text :: pystr
  n_created_at :: pydatetime

text \<open>What leaves the process, in the order in which it happens.\<close>

datatype log_line =
    Log_no_token
  | Log_no_chat_id nat
  | Log_api_error nat pystr
  | Log_sent nat int
  | Log_exception

datatype event =
    Notification_written nat
  | Telegram_post pystr int pystr
  | Printed log_line

text \<open>
  The state: the tables, each a list of rows, and the trace of events. \<open>drivers\<close> is
  kept in the order in which \<open>Driver.objects.all()\<close> yields the rows (the order of
  \<open>Meta.ordering\<close>, decided by the database's collation).
\<close>

record state =
  automobiles :: "automobile list"
  drivers :: "driver list"
  slots :: "slot list"
  appointments :: "appointment_row list"
  notifications :: "notification list"
  events :: "event list"

text \<open>The key an insert gives a new row: one more than every key in use.\<close>

definition fresh_pk :: "nat list \<Rightarrow> nat" where
  "fresh_pk ks = Suc (fold max ks 0)"

subsection \<open>\<open>Automobile\<close>\<close>

definition Automobile_objects_get :: "state \<Rightarrow> nat \<Rightarrow> automobile option" where
  "Automobile_objects_get st k = find (\<lambda>r. au_id r = Some k) (automobiles st)"

definition recalc_next_service :: "automobile \<Rightarrow> automobile" where
  "recalc_next_service self =
     self\<lparr>next_service_mileage := last_service_mileage self + service_interval_km self\<rparr>"

text \<open>
  \<open>models.Model.save\<close> for an automobile: the \<open>auto_now\<close> fields are stamped, a row with
  the object's key is updated, otherwise the object is inserted (under a fresh key when
  it has none). \<open>plate_number\<close> is declared unique, so a second row with the same plate
  makes the database raise and nothing is stored.
\<close>

definition Automobile_super_save :: "env \<Rightarrow> state \<Rightarrow> automobile \<Rightarrow> automobile \<times> (error + state)" where
  "Automobile_super_save E st self =
     (let rows = automobiles st;
          exists = (case au_id self of None \<Rightarrow> False
                    | Some k \<Rightarrow> Automobile_objects_get st k \<noteq> None);
          k = (case au_id self of None \<Rightarrow> fresh_pk (List.map_filter au_id rows) | Some k \<Rightarrow> k);
          obj = self\<lparr>au_id := Some k,
                     au_created_at := (if exists then au_created_at self else Some (now E)),
                     au_updated_at := Some (now E)\<rparr>
      in if list_ex (\<lambda>r. plate_number r = plate_number self \<and> au_id r \<noteq> Some k) rows
         then (self\<lparr>au_updated_at := Some (now E),
                    au_created_at := (if exists then au_created_at self else Some (now E))\<rparr>,
               Inl IntegrityError)
         else if exists
         then (obj, Inr (st\<lparr>automobiles := map (\<lambda>r. if au_id r = Some k then obj else r) rows\<rparr>))
         else (obj, Inr (st\<lparr>automobiles := rows @ [obj]\<rparr>)))"

definition Automobile_save :: "env \<Rightarrow> state \<Rightarrow> automobile \<Rightarrow> automobile \<times> (error + state)" where
  "Automobile_save E st self = Automobile_super_save E st (recalc_next_service self)"

subsection \<open>\<open>Slot\<close>, \<open>Driver\<close> and \<open>Notification\<close>\<close>

definition Slot_objects_get :: "state \<Rightarrow> nat \<Rightarrow> slot option" where
  "Slot_objects_get st k = find (\<lambda>s. s_id s = k) (slots st)"

definition Driver_objects_get :: "state \<Rightarrow> nat \<Rightarrow> driver option" where
  "Driver_objects_get st k = find (\<lambda>d. d_id d = k) (drivers st)"

text \<open>
  \<open>slot.save(update_fields=["status"])\<close>: an \<open>UPDATE\<close> of the status column of the row
  with the object's key. Django raises \<open>DatabaseError\<close> when no row was updated.
\<close>

definition Slot_save_status :: "state \<Rightarrow> slot \<Rightarrow> error + state" where
  "Slot_save_status st s =
     (if list_ex (\<lambda>r. s_id r = s_id s) (slots st)
      then Inr (st\<lparr>slots := map (\<lambda>r. if s_id r = s_id s then r\<lparr>s_status := s_status s\<rparr> else r)
                                (slots st)\<rparr>)
      else Inl DatabaseError)"

definition Notification_objects_create :: "env \<Rightarrow> state \<Rightarrow> driver \<Rightarrow> pystr \<Rightarrow> state" where
  "Notification_objects_create E st drv text =
     (let k = fresh_pk (map n_id (notifications st))
      in st\<lparr>notifications := notifications st @
                [\<lparr>n_id = k, n_driver_id = d_id drv, n_text = text, n_created_at = now E\<rparr>],
            events := events st @ [Notification_written k]\<rparr>)"

definition print_line :: "state \<Rightarrow> log_line \<Rightarrow> state" where
  "print_line st l = st\<lparr>events := events st @ [Printed l]\<rparr>"

text \<open>
  \<open>send_bot_notification\<close> (models.py, lines 187 to 214). \<open>not bot_token\<close> holds for a
  missing and for an empty variable, \<open>not driver.chat_id\<close> for \<open>None\<close> and for 0. The
  \<open>try\<close> block catches whatever the client raises; \<open>Telegram_post\<close> marks its entry.
\<close>

definition send_bot_notification :: "env \<Rightarrow> state \<Rightarrow> driver \<Rightarrow> pystr \<Rightarrow> state" where
  "send_bot_notification E st drv text =
     (let st1 = Notification_objects_create E st drv text
      in case TELEGRAM_BOT_TOKEN E of
           None \<Rightarrow> print_line st1 Log_no_token
         | Some bot_token \<Rightarrow>
             if bot_token = [] then print_line st1 Log_no_token
             else (case chat_id drv of
                     None \<Rightarrow> print_line st1 (Log_no_chat_id (d_id drv))
                   | Some c \<Rightarrow>
                       if c = 0 then print_line st1 (Log_no_chat_id (d_id drv))
                       else (let st2 = st1\<lparr>events := events st1 @ [Telegram_post bot_token c text]\<rparr>
                             in case client_post E bot_token c text of
                                  Http_response code body \<Rightarrow>
                                    if code \<noteq> 200 then print_line st2 (Log_api_error code body)
                                    else print_line st2 (Log_sent (d_id drv) c)
                                | Http_raised \<Rightarrow> print_line st2 Log_exception)))"

subsection \<open>\<open>Appointment\<close>\<close>

text \<open>The two messages of \<open>clean\<close> and the text of the cancellation notice, as code points.\<close>

definition msg_car_not_assigned :: pystr where
  "msg_car_not_assigned =
     [1042, 1099, 1073, 1088, 1072, 1085, 1085, 1099, 1081, 32, 1072, 1074, 1090, 1086, 1084,
      1086, 1073, 1080, 1083, 1100, 32, 1085, 1077, 32, 1087, 1088, 1080, 1074, 1103, 1079,
      1072, 1085, 32, 1082, 32, 1101, 1090, 1086, 1084, 1091, 32, 1074, 1086, 1076, 1080,
      1090, 1077, 1083, 1102]"

definition msg_slot_busy :: pystr where
  "msg_slot_busy =
     [1042, 1099, 1073, 1088, 1072, 1085, 1085, 1099, 1081, 32, 1089, 1083, 1086, 1090, 32,
      1091, 1078, 1077, 32, 1079, 1072, 1085, 1103, 1090]"

definition cancel_text :: "env \<Rightarrow> slot \<Rightarrow> pystr" where
  "cancel_text E s =
     [1042, 1072, 1096, 1072, 32, 1079, 1072, 1087, 1080, 1089, 1100, 32, 1085, 1072, 32]
     @ str_date E (s_date s) @ [32] @ str_time E (s_time s)
     @ [32, 1086, 1090, 1084, 1077, 1085, 1077, 1085, 1072]"

definition Appointment_objects_get :: "state \<Rightarrow> nat \<Rightarrow> appointment_row option" where
  "Appointment_objects_get st k = find (\<lambda>r. r_id r = k) (appointments st)"

text \<open>
  \<open>Appointment.clean\<close> (lines 127 to 139). A model instance is true in a condition, so
  \<open>self.driver and self.car\<close> and \<open>self.slot\<close> hold for the objects an appointment
  carries; \<open>self.car_id\<close> is the key of the car.
\<close>

definition Appointment_clean :: "appointment \<Rightarrow> error + unit" where
  "Appointment_clean self =
     (if Some (d_car_id (ap_driver self)) \<noteq> au_id (ap_car self)
      then Inl (ValidationError msg_car_not_assigned)
      else if ap_id self = None \<and> s_status (ap_slot self) \<noteq> FREE
      then Inl (ValidationError msg_slot_busy)
      else Inr ())"

text \<open>
  \<open>models.Model.save\<close> for an appointment: Django refuses an unsaved related object
  with \<open>ValueError\<close>; otherwise the row with the object's key is updated, or the object
  is inserted under a fresh key.
\<close>

definition row_of :: "nat \<Rightarrow> nat \<Rightarrow> appointment \<Rightarrow> appointment_row" where
  "row_of k c self =
     \<lparr>r_id = k, r_slot_id = s_id (ap_slot self), r_driver_id = d_id (ap_driver self),
      r_car_id = c, r_status = ap_status self, r_created_at = ap_created_at self,
      r_updated_at = ap_updated_at self\<rparr>"

definition Appointment_super_save :: "env \<Rightarrow> state \<Rightarrow> appointment \<Rightarrow> error + state \<times> appointment" where
  "Appointment_super_save E st self =
     (case au_id (ap_car self) of
        None \<Rightarrow> Inl ValueError
      | Some c \<Rightarrow>
          (let rows = appointments st;
               exists = (case ap_id self of None \<Rightarrow> False
                         | Some k \<Rightarrow> Appointment_objects_get st k \<noteq> None);
               k = (case ap_id self of None \<Rightarrow> fresh_pk (map r_id rows) | Some k \<Rightarrow> k);
               obj = self\<lparr>ap_id := Some k,
                          ap_created_at := (if exists then ap_created_at self else Some (now E)),
                          ap_updated_at := Some (now E)\<rparr>
           in if exists
              then Inr (st\<lparr>appointments := map (\<lambda>r. if r_id r = k then row_of k c obj else r) rows\<rparr>,
                        obj)
              else Inr (st\<lparr>appointments := rows @ [row_of k c obj]\<rparr>, obj)))"

text \<open>
  The pattern that occurs twice in \<open>Appointment.save\<close>:
  \<^verbatim>\<open>if self.slot.status != V: self.slot.status = V; self.slot.save(update_fields=["status"])\<close>.
  The status it tests is the one of the slot object the appointment carries.
\<close>

definition slot_status_set :: "SlotStatus \<Rightarrow> state \<Rightarrow> appointment \<Rightarrow> state \<times> appointment \<times> error option" where
  "slot_status_set v st self =
     (if s_status (ap_slot self) \<noteq> v
      then (let self' = self\<lparr>ap_slot := (ap_slot self)\<lparr>s_status := v\<rparr>\<rparr>
            in case Slot_save_status st (ap_slot self') of
                 Inl e \<Rightarrow> (st, self', Some e)
               | Inr st' \<Rightarrow> (st', self', None))
      else (st, self, None))"

text \<open>
  \<open>Appointment.save\<close> (lines 141 to 168). The result is the state and the object as the
  call leaves them, and the exception it raised, if any: whatever was written before an
  exception stays written.
\<close>

definition Appointment_save :: "env \<Rightarrow> state \<Rightarrow> appointment \<Rightarrow> state \<times> appointment \<times> error option" where
  "Appointment_save E st self =
     (let creating = (ap_id self = None)
      in case (case ap_id self of
                 None \<Rightarrow> Inr None
               | Some k \<Rightarrow> (case Appointment_objects_get st k of
                              None \<Rightarrow> Inl DoesNotExist
                            | Some p \<Rightarrow> Inr (Some p))) of
           Inl e \<Rightarrow> (st, self, Some e)
         | Inr prev \<Rightarrow>
             (case Appointment_super_save E st self of
                Inl e \<Rightarrow> (st, self, Some e)
              | Inr (st1, self1) \<Rightarrow>
                  (case (if creating \<and> ap_status self1 = ACTIVE
                         then slot_status_set BUSY st1 self1
                         else (st1, self1, None)) of
                     (st2, self2, Some e) \<Rightarrow> (st2, self2, Some e)
                   | (st2, self2, None) \<Rightarrow>
                       (case prev of
                          None \<Rightarrow> (st2, self2, None)
                        | Some p \<Rightarrow>
                            if r_status p \<noteq> ap_status self2
                            then (if ap_status self2 = CANCELLED_MANAGER
                                     \<or> ap_status self2 = CANCELLED_USER
                                  then (case slot_status_set FREE st2 self2 of
                                          (st3, self3, Some e) \<Rightarrow> (st3, self3, Some e)
                                        | (st3, self3, None) \<Rightarrow>
                                            (send_bot_notification E st3 (ap_driver self3)
                                               (cancel_text E (ap_slot self3)),
                                             self3, None))
                                  else (st2, self2, None))
                            else (st2, self2, None)))))"

section \<open>The views of \<open>core/api.py\<close>\<close>

record active_entry =
  e_id :: "nat option"
  e_date :: pystr
  e_time :: pystr
  e_car_plate :: pystr

datatype payload =
    Detail pystr
  | Driver_data driver "automobile option"
  | Appointment_data appointment
  | Date_list "pystr list"
  | Active_list "active_entry list"
  | Field_errors

text \<open>
  A response with its status code, the 404 of \<open>get_object\<close>, or an exception that no
  view catches (the framework answers 500).
\<close>

datatype response =
    Response payload nat
  | Http404
  | Server_error error

subsection \<open>\<open>DriverViewSet.by_phone\<close>\<close>

definition str_strip :: "env \<Rightarrow> pystr \<Rightarrow> pystr" where
  "str_strip E s = rev (dropWhile (py_isspace E) (rev (dropWhile (py_isspace E) s)))"

text \<open>\<open>re.sub(r"\D+", "", s)\<close>: every maximal run of non-digits is deleted.\<close>

definition re_sub_nondigits :: "env \<Rightarrow> pystr \<Rightarrow> pystr" where
  "re_sub_nondigits E s = filter (re_digit E) s"

definition DriverSerializer_data :: "state \<Rightarrow> driver \<Rightarrow> payload" where
  "DriverSerializer_data st d = Driver_data d (Automobile_objects_get st (d_car_id d))"

fun by_phone_loop :: "env \<Rightarrow> state \<Rightarrow> pystr \<Rightarrow> driver list \<Rightarrow> response" where
  "by_phone_loop E st norm [] = Response (Detail (ascii ''not found'')) 404"
| "by_phone_loop E st norm (d # ds) =
     (if re_sub_nondigits E (phone d) = norm
      then Response (DriverSerializer_data st d) 200
      else by_phone_loop E st norm ds)"

definition by_phone :: "env \<Rightarrow> state \<Rightarrow> pystr option \<Rightarrow> response" where
  "by_phone E st q =
     (let phone = str_strip E (case q of None \<Rightarrow> [] | Some p \<Rightarrow> p)
      in if phone = [] then Response (Detail (ascii ''phone required'')) 400
         else by_phone_loop E st (re_sub_nondigits E phone) (drivers st))"

subsection \<open>\<open>SlotViewSet.free_dates\<close>\<close>



subsection \<open>\<open>AppointmentViewSet\<close>\<close>

text \<open>
  The queryset \<open>Appointment.objects.select_related("slot", "driver", "car")\<close>: each row
  joined with the rows its foreign keys name.
\<close>

definition Appointment_load :: "state \<Rightarrow> appointment_row \<Rightarrow> appointment option" where
  "Appointment_load st r =
     (case Slot_objects_get st (r_slot_id r) of
        None \<Rightarrow> None
      | Some s \<Rightarrow>
          (case Driver_objects_get st (r_driver_id r) of
             None \<Rightarrow> None
           | Some d \<Rightarrow>
               (case Automobile_objects_get st (r_car_id r) of
                  None \<Rightarrow> None
                | Some c \<Rightarrow>
                    Some \<lparr>ap_id = Some (r_id r), ap_slot = s, ap_driver = d, ap_car = c,
                          ap_status = r_status r, ap_created_at = r_created_at r,
                          ap_updated_at = r_updated_at r\<rparr>)))"


definition get_object :: "state \<Rightarrow> nat \<Rightarrow> appointment option" where
  "get_object st pk =
     (case Appointment_objects_get st pk of None \<Rightarrow> None | Some r \<Rightarrow> Appointment_load st r)"




text \<open>\<open>cancel_user\<close> (lines 114 to 121).\<close>

definition cancel_user :: "env \<Rightarrow> state \<Rightarrow> nat \<Rightarrow> state \<times> response" where
  "cancel_user E st pk =
     (case get_object st pk of
        None \<Rightarrow> (st, Http404)
      | Some ap \<Rightarrow>
          (case Appointment_save E st (ap\<lparr>ap_status := CANCELLED_USER\<rparr>) of
             (st', ap', None) \<Rightarrow> (st', Response (Appointment_data ap') 200)
           | (st', ap', Some e) \<Rightarrow> (st', Server_error e)))"

text \<open>
  The create action that \<open>mixins.CreateModelMixin\<close> gives the view set, with
  \<open>AppointmentSerializer\<close>: the serializer resolves the three primary keys (a key with no
  row is a field error, status 400), takes the status of the request or the default
  \<open>ACTIVE\<close>, and \<open>ModelSerializer.create\<close> calls \<open>Appointment.objects.create\<close>, that is
  the constructor and \<open>save\<close>. Nothing on this path calls \<open>Appointment.clean\<close>: Django
  runs it in \<open>full_clean\<close>, which neither \<open>save\<close> nor the serializer calls.
\<close>

record create_request =
  req_slot_id :: nat
  req_driver :: nat
  req_car :: nat
  req_status :: "AppointmentStatus option"

definition new_appointment :: "slot \<Rightarrow> driver \<Rightarrow> automobile \<Rightarrow> AppointmentStatus \<Rightarrow> appointment" where
  "new_appointment s d c v =
     \<lparr>ap_id = None, ap_slot = s, ap_driver = d, ap_car = c, ap_status = v,
      ap_created_at = None, ap_updated_at = None\<rparr>"

definition AppointmentViewSet_create :: "env \<Rightarrow> state \<Rightarrow> create_request \<Rightarrow> state \<times> response" where
  "AppointmentViewSet_create E st rq =
     (case Slot_objects_get st (req_slot_id rq) of
        None \<Rightarrow> (st, Response Field_errors 400)
      | Some s \<Rightarrow>
          (case Driver_objects_get st (req_driver rq) of
             None \<Rightarrow> (st, Response Field_errors 400)
           | Some d \<Rightarrow>
               (case Automobile_objects_get st (req_car rq) of
                  None \<Rightarrow> (st, Response Field_errors 400)
                | Some c \<Rightarrow>
                    (case Appointment_save E st
                            (new_appointment s d c
                               (case req_status rq of None \<Rightarrow> ACTIVE | Some v \<Rightarrow> v)) of
                       (st', ap', None) \<Rightarrow> (st', Response (Appointment_data ap') 201)
                     | (st', ap', Some e) \<Rightarrow> (st', Server_error e)))))"

section \<open>The occupancy invariant\<close>

text \<open>The ACTIVE appointments that reference the slot with key \<open>k\<close>.\<close>

definition active_on :: "state \<Rightarrow> nat \<Rightarrow> appointment_row list" where
  "active_on st k = filter (\<lambda>r. r_slot_id r = k \<and> r_status r = ACTIVE) (appointments st)"

text \<open>
  The invariant as the specification words it: a slot is BUSY if and only if exactly one
  appointment that references it is ACTIVE.
\<close>

definition slot_invariant :: "state \<Rightarrow> bool" where
  "slot_invariant st =
     list_all (\<lambda>s. (s_status s = BUSY) = (length (active_on st (s_id s)) = 1)) (slots st)"

text \<open>
  What the operations maintain is a little more: a BUSY slot has exactly one ACTIVE
  appointment, a FREE slot has none, and the primary keys of the appointments are
  distinct.
\<close>

definition occupancy_ok :: "state \<Rightarrow> bool" where
  "occupancy_ok st =
     (list_all (\<lambda>s. length (active_on st (s_id s)) = (if s_status s = BUSY then 1 else 0))
        (slots st)
      \<and> distinct (map r_id (appointments st)))"

text \<open>
  The states that the operations of the claim reach from an empty calendar of FREE
  slots when each is used where it is meant to be used: a creation whose slot is FREE
  (or whose status is not ACTIVE), and a cancellation, by the user or by the manager,
  of an appointment that is ACTIVE. The manager cancels by saving the loaded
  appointment with the status \<open>CANCELLED_MANAGER\<close>.
\<close>

inductive guarded_run :: "state \<Rightarrow> bool" where
  start: "appointments st = [] \<Longrightarrow> list_all (\<lambda>s. s_status s = FREE) (slots st) \<Longrightarrow> guarded_run st"
| create: "guarded_run st \<Longrightarrow> Slot_objects_get st (req_slot_id rq) = Some s \<Longrightarrow>
           s_status s = FREE \<or> (req_status rq \<noteq> None \<and> req_status rq \<noteq> Some ACTIVE) \<Longrightarrow>
           guarded_run (fst (AppointmentViewSet_create E st rq))"
| by_user: "guarded_run st \<Longrightarrow> get_object st pk = Some ap \<Longrightarrow> ap_status ap = ACTIVE \<Longrightarrow>
            guarded_run (fst (cancel_user E st pk))"
| by_manager: "guarded_run st \<Longrightarrow> get_object st pk = Some ap \<Longrightarrow> ap_status ap = ACTIVE \<Longrightarrow>
               guarded_run (fst (Appointment_save E st (ap\<lparr>ap_status := CANCELLED_MANAGER\<rparr>)))"

text \<open>The same operations with no restriction on where they are used.\<close>

inductive reachable :: "state \<Rightarrow> bool" where
  r_start: "appointments st = [] \<Longrightarrow> list_all (\<lambda>s. s_status s = FREE) (slots st) \<Longrightarrow> reachable st"
| r_create: "reachable st \<Longrightarrow> reachable (fst (AppointmentViewSet_create E st rq))"
| r_by_user: "reachable st \<Longrightarrow> reachable (fst (cancel_user E st pk))"
| r_by_manager: "reachable st \<Longrightarrow> get_object st pk = Some ap \<Longrightarrow>
                 reachable (fst (Appointment_save E st (ap\<lparr>ap_status := CANCELLED_MANAGER\<rparr>)))"

section \<open>Example data\<close>

text \<open>
  An environment for the examples. Its whitespace class is that of \<open>str.isspace\<close>; its
  digit class and its \<open>int\<close> are the ASCII part of Python's (decimal literals with an
  optional minus sign); dates and times are rendered as \<open>datetime\<close> renders them.
\<close>

definition example_isspace :: "nat \<Rightarrow> bool" where
  "example_isspace c =
     ((9 \<le> c \<and> c \<le> 13) \<or> (28 \<le> c \<and> c \<le> 32) \<or> c = 133 \<or> c = 160 \<or> c = 5760
      \<or> (8192 \<le> c \<and> c \<le> 8202) \<or> c = 8232 \<or> c = 8233 \<or> c = 8239 \<or> c = 8287 \<or> c = 12288)"

definition example_digit :: "nat \<Rightarrow> bool" where
  "example_digit c = (48 \<le> c \<and> c \<le> 57)"

fun ascii_nat :: "pystr \<Rightarrow> nat \<Rightarrow> nat option" where
  "ascii_nat [] acc = Some acc"
| "ascii_nat (c # cs) acc =
     (if example_digit c then ascii_nat cs (10 * acc + (c - 48)) else None)"

definition example_int :: "pystr \<Rightarrow> int option" where
  "example_int t =
     (case t of
        [] \<Rightarrow> None
      | c # cs \<Rightarrow>
          if c = 45 then (if cs = [] then None else map_option (\<lambda>n. - int n) (ascii_nat cs 0))
          else map_option int (ascii_nat t 0))"

definition two_digits :: "nat \<Rightarrow> pystr" where
  "two_digits n = [48 + n div 10 mod 10, 48 + n mod 10]"

definition four_digits :: "nat \<Rightarrow> pystr" where
  "four_digits n = two_digits (n div 100) @ two_digits n"

definition days_before_month :: "nat \<Rightarrow> nat" where
  "days_before_month m = [0, 0, 31, 59, 90, 120, 151, 181, 212, 243, 273, 304, 334] ! m"

definition days_in_month :: "nat \<Rightarrow> nat" where
  "days_in_month m = [0, 31, 28, 31, 30, 31, 30, 31, 31, 30, 31, 30, 31] ! m"

text \<open>Year, month and day of an ordinal, as \<open>datetime\<close> computes them.\<close>

definition ord2ymd :: "nat \<Rightarrow> nat \<times> nat \<times> nat" where
  "ord2ymd n =
     (let n0 = n - 1;
          n400 = n0 div 146097; n1 = n0 mod 146097;
          n100 = n1 div 36524; n2 = n1 mod 36524;
          n4 = n2 div 1461; n3 = n2 mod 1461;
          n1y = n3 div 365; n5 = n3 mod 365;
          year = n400 * 400 + 1 + n100 * 100 + n4 * 4 + n1y
      in if n1y = 4 \<or> n100 = 4 then (year - 1, 12, 31)
         else (let leap = (n1y = 3 \<and> (n4 \<noteq> 24 \<or> n100 = 3));
                   month = (n5 + 50) div 32;
                   preceding = days_before_month month + (if month > 2 \<and> leap then 1 else 0)
               in if preceding > n5
                  then (let month' = month - 1;
                            preceding' = preceding
                              - (days_in_month month' + (if month' = 2 \<and> leap then 1 else 0))
                        in (year, month', n5 - preceding' + 1))
                  else (year, month, n5 - preceding + 1)))"

definition example_str_date :: "pydate \<Rightarrow> pystr" where
  "example_str_date d =
     (case ord2ymd (nat d) of
        (y, m, dd) \<Rightarrow> four_digits y @ [45] @ two_digits m @ [45] @ two_digits dd)"

definition example_strftime_HM :: "pytime \<Rightarrow> pystr" where
  "example_strftime_HM t =
     two_digits (t div 3600000000) @ [58] @ two_digits (t div 60000000 mod 60)"

definition example_str_time :: "pytime \<Rightarrow> pystr" where
  "example_str_time t =
     example_strftime_HM t @ [58] @ two_digits (t div 1000000 mod 60)
     @ (if t mod 1000000 = 0 then []
        else [46] @ two_digits (t mod 1000000 div 10000) @ two_digits (t mod 10000 div 100)
             @ two_digits (t mod 100))"

definition example_env :: env where
  "example_env =
     \<lparr>today = 739923, now = 1793700000000000, TELEGRAM_BOT_TOKEN = None,
      client_post = (\<lambda>token chat text. Http_raised),
      py_isspace = example_isspace, re_digit = example_digit, py_int = example_int,
      str_date = example_str_date, str_time = example_str_time,
      strftime_HM = example_strftime_HM\<rparr>"

text \<open>The vehicle of the mileage example, before its first save.\<close>

definition example_car :: automobile where
  "example_car =
     \<lparr>au_id = None, plate_number = ascii ''A001AA'', au_make = ascii ''Lada'',
      au_model = ascii ''Vesta'', last_service_mileage = 45000, service_interval_km = 10000,
      next_service_mileage = 0, au_created_at = None, au_updated_at = None\<rparr>"

definition empty_state :: state where
  "empty_state =
     \<lparr>automobiles = [], drivers = [], slots = [], appointments = [], notifications = [],
      events = []\<rparr>"

text \<open>
  A fleet of two: each driver has a car, and the calendar has one slot, 3 November 2026
  at 10:00, FREE.
\<close>

definition car1 :: automobile where
  "car1 = example_car\<lparr>au_id := Some 1, next_service_mileage := 55000\<rparr>"

definition car2 :: automobile where
  "car2 = example_car\<lparr>au_id := Some 2, plate_number := ascii ''B002BB'',
                        next_service_mileage := 55000\<rparr>"

definition driver1 :: driver where
  "driver1 = \<lparr>d_id = 1, first_name = ascii ''Ivan'', last_name = ascii ''Ivanov'',
              phone = ascii ''+7 (911) 123-45-67'', d_car_id = 1, chat_id = Some 1001\<rparr>"

definition driver2 :: driver where
  "driver2 = \<lparr>d_id = 2, first_name = ascii ''Petr'', last_name = ascii ''Petrov'',
              phone = ascii ''79111234567'', d_car_id = 2, chat_id = None\<rparr>"

definition slot1 :: slot where
  "slot1 = \<lparr>s_id = 1, s_date = 739923, s_time = 36000000000, s_status = FREE\<rparr>"

definition fleet :: state where
  "fleet = empty_state\<lparr>automobiles := [car1, car2], drivers := [driver1, driver2],
                        slots := [slot1]\<rparr>"

definition request :: "nat \<Rightarrow> nat \<Rightarrow> nat \<Rightarrow> create_request" where
  "request s d c = \<lparr>req_slot_id = s, req_driver = d, req_car = c, req_status = None\<rparr>"


text \<open>
  The first driver books the slot of the fleet; \<open>appointment1\<close> is that appointment as
  the view set loads it afterwards.
\<close>

definition booked :: state where
  "booked = fst (AppointmentViewSet_create example_env fleet (request 1 1 1))"

definition appointment1 :: appointment where
  "appointment1 =
     \<lparr>ap_id = Some 1, ap_slot = slot1\<lparr>s_status := BUSY\<rparr>, ap_driver = driver1, ap_car = car1,
      ap_status = ACTIVE, ap_created_at = Some (now example_env),
      ap_updated_at = Some (now example_env)\<rparr>"

text \<open>
  Then the manager cancels it (the status is set and the appointment saved), the second
  driver books the slot that has become FREE, or, instead, the second driver books the
  slot while it is still BUSY.
\<close>

definition released :: state where
  "released = fst (Appointment_save example_env booked (appointment1\<lparr>ap_status := CANCELLED_MANAGER\<rparr>))"

definition rebooked :: state where
  "rebooked = fst (AppointmentViewSet_create example_env released (request 1 2 2))"

definition double_booked :: state where
  "double_booked = fst (AppointmentViewSet_create example_env booked (request 1 2 2))"

text \<open>The cancelled appointment as the view set loads it from \<open>released\<close>.\<close>

definition appointment1_released :: appointment where
  "appointment1_released = appointment1\<lparr>ap_status := CANCELLED_MANAGER, ap_slot := slot1\<rparr>"

text \<open>The user cancels the appointment that the manager has cancelled.\<close>

definition recancelled :: state where
  "recancelled = fst (cancel_user example_env released 1)"

section \<open>Facts about tables\<close>

lemma fold_max_ge: "k \<in> set ks \<Longrightarrow> k \<le> fold max ks (m::nat)"
proof (induction ks arbitrary: m)
  case Nil
  then show ?case by simp
next
  case (Cons a ks)
  have mono: "\<And>m. m \<le> fold max ks (m::nat)"
  proof -
    fix m :: nat
    show "m \<le> fold max ks m"
      by (induction ks arbitrary: m) (auto intro: order_trans [OF max.cobounded2])
  qed
  from Cons show ?case
  proof (cases "k = a")
    case True
    have "a \<le> max a m" by simp
    also have "\<dots> \<le> fold max ks (max a m)" by (rule mono)
    finally show ?thesis using True by simp
  next
    case False
    with Cons show ?thesis by simp
  qed
qed

lemma fresh_pk_fresh: "fresh_pk ks \<notin> set ks"
proof
  assume "fresh_pk ks \<in> set ks"
  then have "fresh_pk ks \<le> fold max ks 0" by (rule fold_max_ge)
  then show False by (simp add: fresh_pk_def)
qed

lemma find_map_upd:
  "find P xs \<noteq> None \<Longrightarrow> P y \<Longrightarrow> find P (map (\<lambda>r. if P r then y else r) xs) = Some y"
  by (induction xs) auto

lemma find_append_new:
  "find P xs = None \<Longrightarrow> P y \<Longrightarrow> find P (xs @ [y]) = Some y"
  by (induction xs) (auto split: if_splits)

lemma fresh_pk_not_used:
  "find (\<lambda>r. au_id r = Some (fresh_pk (List.map_filter au_id rows))) rows = None"
proof -
  have "\<forall>r \<in> set rows. au_id r \<noteq> Some (fresh_pk (List.map_filter au_id rows))"
  proof
    fix r assume r: "r \<in> set rows"
    show "au_id r \<noteq> Some (fresh_pk (List.map_filter au_id rows))"
    proof
      assume "au_id r = Some (fresh_pk (List.map_filter au_id rows))"
      with r have "fresh_pk (List.map_filter au_id rows) \<in> set (List.map_filter au_id rows)"
        by (force simp: map_filter_def)
      then show False using fresh_pk_fresh by blast
    qed
  qed
  then show ?thesis by (simp add: find_None_iff)
qed

section \<open>Mileage derivation\<close>

text \<open>
  Claim C6. Whatever the object holds when \<open>Automobile.save\<close> is called, the object
  leaves the call with next-service mileage equal to last-service mileage plus the
  interval, and when the save succeeds that object is the row stored under its key: the
  value is recomputed on every save and never stored stale. For last = 45000 and
  interval = 10000 the stored value is 55000, and after the interval is changed to 8000
  and the vehicle is saved again it is 53000.
\<close>

theorem Automobile_save_next_service:
  "next_service_mileage (fst (Automobile_save E st a)) =
     last_service_mileage a + service_interval_km a
   \<and> (\<forall>st'. snd (Automobile_save E st a) = Inr st' \<longrightarrow>
        (\<exists>k. au_id (fst (Automobile_save E st a)) = Some k
           \<and> Automobile_objects_get st' k = Some (fst (Automobile_save E st a))))
   \<and> (\<exists>a1 st1 a2 st2.
        Automobile_save E empty_state example_car = (a1, Inr st1)
        \<and> map next_service_mileage (automobiles st1) = [55000]
        \<and> Automobile_save E st1 (a1\<lparr>service_interval_km := 8000\<rparr>) = (a2, Inr st2)
        \<and> map next_service_mileage (automobiles st2) = [53000])"
proof (intro conjI)
  show "next_service_mileage (fst (Automobile_save E st a)) =
     last_service_mileage a + service_interval_km a"
    by (simp add: Automobile_save_def Automobile_super_save_def recalc_next_service_def Let_def)
  show "\<forall>st'. snd (Automobile_save E st a) = Inr st' \<longrightarrow>
        (\<exists>k. au_id (fst (Automobile_save E st a)) = Some k
           \<and> Automobile_objects_get st' k = Some (fst (Automobile_save E st a)))"
    by (auto simp: Automobile_save_def Automobile_super_save_def Let_def Automobile_objects_get_def
      find_map_upd find_append_new fresh_pk_not_used split: option.splits if_splits)
  show "\<exists>a1 st1 a2 st2.
        Automobile_save E empty_state example_car = (a1, Inr st1)
        \<and> map next_service_mileage (automobiles st1) = [55000]
        \<and> Automobile_save E st1 (a1\<lparr>service_interval_km := 8000\<rparr>) = (a2, Inr st2)
        \<and> map next_service_mileage (automobiles st2) = [53000]"
    by (simp add: Automobile_save_def Automobile_super_save_def Let_def Automobile_objects_get_def
        recalc_next_service_def empty_state_def example_car_def fresh_pk_def map_filter_def)
qed

text \<open>The first save of the example vehicle stores it under key 1 with 55000.\<close>

theorem Automobile_save_next_service_witness:
  "snd (Automobile_save example_env empty_state example_car)
     = Inr (empty_state\<lparr>automobiles := [fst (Automobile_save example_env empty_state example_car)]\<rparr>)
   \<and> Automobile_objects_get
        (empty_state\<lparr>automobiles := [fst (Automobile_save example_env empty_state example_car)]\<rparr>) 1
       = Some (fst (Automobile_save example_env empty_state example_car))
   \<and> next_service_mileage (fst (Automobile_save example_env empty_state example_car)) = 55000"
proof -
  have run: "snd (Automobile_save example_env empty_state example_car)
     = Inr (empty_state\<lparr>automobiles := [fst (Automobile_save example_env empty_state example_car)]\<rparr>)"
    by (simp add: Automobile_save_def Automobile_super_save_def Let_def Automobile_objects_get_def
        recalc_next_service_def empty_state_def example_car_def fresh_pk_def map_filter_def)
  have key: "au_id (fst (Automobile_save example_env empty_state example_car)) = Some 1"
    by (simp add: Automobile_save_def Automobile_super_save_def Let_def Automobile_objects_get_def
        recalc_next_service_def empty_state_def example_car_def fresh_pk_def map_filter_def)
  from Automobile_save_next_service [of example_env empty_state example_car] run key
  show ?thesis
    by (auto simp: example_car_def)
qed

section \<open>Driver lookup by phone\<close>

lemma by_phone_loop_find:
  "by_phone_loop E st n ds =
     (case find (\<lambda>d. re_sub_nondigits E (phone d) = n) ds of
        None \<Rightarrow> Response (Detail (ascii ''not found'')) 404
      | Some d \<Rightarrow> Response (DriverSerializer_data st d) 200)"
  by (induction ds) auto

lemma filter_dropWhile_disjoint:
  "(\<And>x. Q x \<Longrightarrow> \<not> P x) \<Longrightarrow> filter P (dropWhile Q xs) = filter P xs"
  by (induction xs) auto

lemma digits_of_strip:
  assumes "\<And>c. py_isspace E c \<Longrightarrow> \<not> re_digit E c"
  shows "re_sub_nondigits E (str_strip E q) = re_sub_nondigits E q"
proof -
  have "filter (re_digit E) (rev (dropWhile (py_isspace E) (rev (dropWhile (py_isspace E) q))))
        = rev (filter (re_digit E) (dropWhile (py_isspace E) (rev (dropWhile (py_isspace E) q))))"
    by (simp add: rev_filter)
  also have "\<dots> = rev (filter (re_digit E) (rev (dropWhile (py_isspace E) q)))"
    using assms by (simp add: filter_dropWhile_disjoint)
  also have "\<dots> = filter (re_digit E) (dropWhile (py_isspace E) q)"
    by (simp add: rev_filter)
  also have "\<dots> = filter (re_digit E) q"
    using assms by (simp add: filter_dropWhile_disjoint)
  finally show ?thesis by (simp add: re_sub_nondigits_def str_strip_def)
qed

lemma example_space_not_digit: "example_isspace c \<Longrightarrow> \<not> example_digit c"
  by (auto simp: example_isspace_def example_digit_def)

text \<open>
  Claim C7, as the code has it. No whitespace character is a decimal digit. For every
  driver table and every query that is not blank (not empty once \<open>strip\<close> has removed
  the surrounding whitespace), \<open>by_phone\<close> removes every non-digit from the query and
  from each stored phone, scans the drivers in order and answers with the first driver
  whose digits equal the digits of the query, even when later drivers have the same
  digits; when no driver matches it answers "not found" (404). A missing or blank query
  is answered "phone required" (400) before any driver is looked at.
\<close>

theorem by_phone_first_normalized_match:
  assumes "\<And>c. py_isspace E c \<Longrightarrow> \<not> re_digit E c"
  shows "(str_strip E q \<noteq> [] \<longrightarrow>
            by_phone E st (Some q) =
              (case find (\<lambda>d. re_sub_nondigits E (phone d) = re_sub_nondigits E q) (drivers st) of
                 None \<Rightarrow> Response (Detail (ascii ''not found'')) 404
               | Some d \<Rightarrow> Response (DriverSerializer_data st d) 200))
         \<and> (str_strip E q = [] \<longrightarrow>
              by_phone E st (Some q) = Response (Detail (ascii ''phone required'')) 400)
         \<and> by_phone E st None = Response (Detail (ascii ''phone required'')) 400"
proof (intro conjI impI)
  assume "str_strip E q \<noteq> []"
  then show "by_phone E st (Some q) =
              (case find (\<lambda>d. re_sub_nondigits E (phone d) = re_sub_nondigits E q) (drivers st) of
                 None \<Rightarrow> Response (Detail (ascii ''not found'')) 404
               | Some d \<Rightarrow> Response (DriverSerializer_data st d) 200)"
    using digits_of_strip [OF assms, of q]
    by (simp add: by_phone_def by_phone_loop_find)
next
  assume "str_strip E q = []"
  then show "by_phone E st (Some q) = Response (Detail (ascii ''phone required'')) 400"
    by (simp add: by_phone_def)
next
  show "by_phone E st None = Response (Detail (ascii ''phone required'')) 400"
    by (simp add: by_phone_def str_strip_def)
qed

text \<open>
  In the example fleet both drivers have the digits 79111234567: the query
  " 7 911 123 45 67 " finds the first of them. The query "911-123-45-67" has other
  digits and finds nobody, and a query of one space is answered "phone required".
\<close>

theorem by_phone_first_normalized_match_witness:
  "by_phone example_env fleet (Some (ascii '' 7 911 123 45 67 ''))
     = Response (DriverSerializer_data fleet driver1) 200
   \<and> re_sub_nondigits example_env (phone driver2)
       = re_sub_nondigits example_env (ascii '' 7 911 123 45 67 '')
   \<and> by_phone example_env fleet (Some (ascii ''911-123-45-67''))
       = Response (Detail (ascii ''not found'')) 404
   \<and> by_phone example_env fleet (Some (ascii '' '')) = Response (Detail (ascii ''phone required'')) 400"
proof -
  have sp: "\<And>c. py_isspace example_env c \<Longrightarrow> \<not> re_digit example_env c"
    by (simp add: example_env_def example_space_not_digit)
  have a: "str_strip example_env (ascii '' 7 911 123 45 67 '') \<noteq> []"
    by (simp add: str_strip_def example_env_def ascii_def example_isspace_def)
  have b: "str_strip example_env (ascii ''911-123-45-67'') \<noteq> []"
    by (simp add: str_strip_def example_env_def ascii_def example_isspace_def)
  have c: "str_strip example_env (ascii '' '') = []"
    by (simp add: str_strip_def example_env_def ascii_def example_isspace_def)
  show ?thesis
    using by_phone_first_normalized_match [OF sp, of "ascii '' 7 911 123 45 67 ''" fleet]
      by_phone_first_normalized_match [OF sp, of "ascii ''911-123-45-67''" fleet]
      by_phone_first_normalized_match [OF sp, of "ascii '' ''" fleet] a b c
    by (simp add: re_sub_nondigits_def example_env_def ascii_def example_digit_def fleet_def
        driver1_def driver2_def empty_state_def)
qed

text \<open>
  The claim as worded, for every query string, fails for the empty query: no driver of
  the fleet has the digits of the empty string, yet the answer is not "not found".
\<close>

theorem by_phone_blank_query_counterexample:
  "by_phone example_env fleet (Some [])
     \<noteq> (case find (\<lambda>d. re_sub_nondigits example_env (phone d) = re_sub_nondigits example_env [])
                (drivers fleet) of
          None \<Rightarrow> Response (Detail (ascii ''not found'')) 404
        | Some d \<Rightarrow> Response (DriverSerializer_data fleet d) 200)"
  by (simp add: by_phone_def str_strip_def re_sub_nondigits_def example_env_def ascii_def
      example_digit_def fleet_def driver1_def driver2_def empty_state_def)

section \<open>Dates with a free slot\<close>






section \<open>Active appointments by phone\<close>




section \<open>Facts about saving an appointment\<close>

lemma find_SomeD: "find P xs = Some x \<Longrightarrow> P x \<and> x \<in> set xs"
  by (induction xs) (auto split: if_splits)

lemma get_objectD:
  assumes "get_object st pk = Some ap"
  shows "\<exists>r. Appointment_objects_get st pk = Some r \<and> r_id r = pk \<and> r \<in> set (appointments st)
           \<and> ap_id ap = Some pk \<and> ap_status ap = r_status r
           \<and> Slot_objects_get st (r_slot_id r) = Some (ap_slot ap)
           \<and> s_id (ap_slot ap) = r_slot_id r \<and> ap_slot ap \<in> set (slots st)
           \<and> d_id (ap_driver ap) = r_driver_id r
           \<and> au_id (ap_car ap) = Some (r_car_id r)
           \<and> ap_created_at ap = r_created_at r"
proof -
  from assms obtain r where r: "Appointment_objects_get st pk = Some r"
      and l: "Appointment_load st r = Some ap"
    by (auto simp: get_object_def split: option.splits)
  from r have r1: "r_id r = pk" "r \<in> set (appointments st)"
    by (auto simp: Appointment_objects_get_def dest: find_SomeD)
  from l obtain s d c where s: "Slot_objects_get st (r_slot_id r) = Some s"
      and d: "Driver_objects_get st (r_driver_id r) = Some d"
      and c: "Automobile_objects_get st (r_car_id r) = Some c"
      and ap: "ap = \<lparr>ap_id = Some (r_id r), ap_slot = s, ap_driver = d, ap_car = c,
                          ap_status = r_status r, ap_created_at = r_created_at r,
                          ap_updated_at = r_updated_at r\<rparr>"
    by (auto simp: Appointment_load_def split: option.splits)
  from s have s1: "s_id s = r_slot_id r" "s \<in> set (slots st)"
    by (auto simp: Slot_objects_get_def dest: find_SomeD)
  from d have d1: "d_id d = r_driver_id r"
    by (auto simp: Driver_objects_get_def dest: find_SomeD)
  from c have c1: "au_id c = Some (r_car_id r)"
    by (auto simp: Automobile_objects_get_def dest: find_SomeD)
  show ?thesis using r r1 s s1 d1 c1 ap by simp
qed

text \<open>Saving an appointment that is in the table: what the call does, in one formula.\<close>

lemma Appointment_save_existing:
  assumes "ap_id self = Some pk" and "Appointment_objects_get st pk = Some p"
    and "au_id (ap_car self) = Some c" and "ap_slot self \<in> set (slots st)"
  shows "Appointment_save E st self =
     (let obj = self\<lparr>ap_updated_at := Some (now E)\<rparr>;
          st1 = st\<lparr>appointments :=
                  map (\<lambda>r. if r_id r = pk then row_of pk c obj else r) (appointments st)\<rparr>
      in if r_status p \<noteq> ap_status self
            \<and> (ap_status self = CANCELLED_MANAGER \<or> ap_status self = CANCELLED_USER)
         then (if s_status (ap_slot self) \<noteq> FREE
               then (send_bot_notification E
                       (st1\<lparr>slots := map (\<lambda>r. if s_id r = s_id (ap_slot self)
                                               then r\<lparr>s_status := FREE\<rparr> else r) (slots st)\<rparr>)
                       (ap_driver self) (cancel_text E (ap_slot self)),
                     obj\<lparr>ap_slot := (ap_slot self)\<lparr>s_status := FREE\<rparr>\<rparr>, None)
               else (send_bot_notification E st1 (ap_driver self) (cancel_text E (ap_slot self)),
                     obj, None))
         else (st1, obj, None))"
proof -
  have same: "self\<lparr>ap_id := Some pk\<rparr> = self"
    using assms(1) by (cases self) simp
  have same': "\<And>t. self\<lparr>ap_id := Some pk, ap_updated_at := t\<rparr> = self\<lparr>ap_updated_at := t\<rparr>"
    using assms(1) by (cases self) simp
  show ?thesis
    using assms
    by (auto simp: Appointment_save_def Appointment_super_save_def slot_status_set_def Let_def
        Slot_save_status_def list_ex_iff cancel_text_def same same' cong: if_cong)
qed

lemma Appointment_save_new:
  assumes "au_id c = Some ck" and "s \<in> set (slots st)"
  shows "Appointment_save E st (new_appointment s d c v) =
     (let k = fresh_pk (map r_id (appointments st));
          obj = (new_appointment s d c v)\<lparr>ap_id := Some k, ap_created_at := Some (now E),
                     ap_updated_at := Some (now E)\<rparr>;
          st1 = st\<lparr>appointments := appointments st @ [row_of k ck obj]\<rparr>
      in if v = ACTIVE \<and> s_status s \<noteq> BUSY
         then (st1\<lparr>slots := map (\<lambda>r. if s_id r = s_id s then r\<lparr>s_status := BUSY\<rparr> else r) (slots st)\<rparr>,
               obj\<lparr>ap_slot := s\<lparr>s_status := BUSY\<rparr>\<rparr>, None)
         else (st1, obj, None))"
  using assms
  by (auto simp: Appointment_save_def Appointment_super_save_def slot_status_set_def Let_def
      Slot_save_status_def list_ex_iff new_appointment_def cong: if_cong)


lemma send_bot_notification_tables:
  "slots (send_bot_notification E st d t) = slots st"
  "appointments (send_bot_notification E st d t) = appointments st"
  "automobiles (send_bot_notification E st d t) = automobiles st"
  "drivers (send_bot_notification E st d t) = drivers st"
  "notifications (send_bot_notification E st d t) =
     notifications st @ [\<lparr>n_id = fresh_pk (map n_id (notifications st)), n_driver_id = d_id d,
                           n_text = t, n_created_at = now E\<rparr>]"
  by (simp_all add: send_bot_notification_def Notification_objects_create_def print_line_def
      Let_def split: option.splits http_outcome.splits)

lemma send_bot_notification_events:
  "\<exists>rest. events (send_bot_notification E st d t) =
            events st @ Notification_written (fresh_pk (map n_id (notifications st))) # rest
          \<and> (\<forall>e \<in> set rest. \<forall>k. e \<noteq> Notification_written k)"
  by (simp add: send_bot_notification_def Notification_objects_create_def print_line_def
      Let_def split: option.splits http_outcome.splits)

lemma cancel_text_delivery [simp]:
  "cancel_text (E\<lparr>TELEGRAM_BOT_TOKEN := tok, client_post := post\<rparr>) s = cancel_text E s"
  by (simp add: cancel_text_def)

lemma find_map_upd_id:
  "find (\<lambda>r. r_id r = k) xs = Some p \<Longrightarrow> r_id y = k \<Longrightarrow>
   find (\<lambda>r. r_id r = k) (map (\<lambda>r. if r_id r = k then y else r) xs) = Some y"
  by (induction xs) (auto split: if_splits)

lemma find_slot_map_status:
  "find (\<lambda>r. s_id r = k) xs = Some s \<Longrightarrow>
   find (\<lambda>r. s_id r = k) (map (\<lambda>r. if s_id r = k then r\<lparr>s_status := v\<rparr> else r) xs)
     = Some (s\<lparr>s_status := v\<rparr>)"
  by (induction xs) (auto split: if_splits)

text \<open>
  Saving a loaded appointment with a cancelled status that its row does not have: the row
  is rewritten, the slot is set FREE unless the loaded slot is FREE already, and the
  notice is sent.
\<close>

lemma Appointment_save_cancel:
  assumes "get_object st pk = Some ap" and "ap_status ap \<noteq> v"
    and "v = CANCELLED_USER \<or> v = CANCELLED_MANAGER"
  shows "\<exists>c st1 obj.
     au_id (ap_car ap) = Some c
     \<and> appointments st1 = map (\<lambda>r. if r_id r = pk
          then row_of pk c (ap\<lparr>ap_status := v, ap_updated_at := Some (now E)\<rparr>)
          else r) (appointments st)
     \<and> slots st1 = (if s_status (ap_slot ap) \<noteq> FREE
          then map (\<lambda>r. if s_id r = s_id (ap_slot ap) then r\<lparr>s_status := FREE\<rparr> else r) (slots st)
          else slots st)
     \<and> notifications st1 = notifications st \<and> events st1 = events st
     \<and> automobiles st1 = automobiles st \<and> drivers st1 = drivers st
     \<and> obj = (if s_status (ap_slot ap) \<noteq> FREE
          then ap\<lparr>ap_status := v, ap_updated_at := Some (now E),
                 ap_slot := (ap_slot ap)\<lparr>s_status := FREE\<rparr>\<rparr>
          else ap\<lparr>ap_status := v, ap_updated_at := Some (now E)\<rparr>)
     \<and> Appointment_save E st (ap\<lparr>ap_status := v\<rparr>) =
         (send_bot_notification E st1 (ap_driver ap) (cancel_text E (ap_slot ap)), obj, None)"
proof -
  from get_objectD [OF assms(1)] obtain r where r: "Appointment_objects_get st pk = Some r"
      "ap_id ap = Some pk" "ap_status ap = r_status r" "ap_slot ap \<in> set (slots st)"
      "au_id (ap_car ap) = Some (r_car_id r)"
    by blast
  let ?self = "ap\<lparr>ap_status := v\<rparr>"
  let ?obj = "?self\<lparr>ap_updated_at := Some (now E)\<rparr>"
  let ?st0 = "st\<lparr>appointments :=
                  map (\<lambda>x. if r_id x = pk then row_of pk (r_car_id r) ?obj else x) (appointments st)\<rparr>"
  let ?st1 = "if s_status (ap_slot ap) \<noteq> FREE
     then ?st0\<lparr>slots := map (\<lambda>x. if s_id x = s_id (ap_slot ap) then x\<lparr>s_status := FREE\<rparr> else x)
                             (slots st)\<rparr>
     else ?st0"
  let ?res = "if s_status (ap_slot ap) \<noteq> FREE
     then ?obj\<lparr>ap_slot := (ap_slot ap)\<lparr>s_status := FREE\<rparr>\<rparr> else ?obj"
  have "ap_id ?self = Some pk" "au_id (ap_car ?self) = Some (r_car_id r)"
      "ap_slot ?self \<in> set (slots st)"
    using r by simp_all
  note f = Appointment_save_existing [OF this(1) r(1) this(2) this(3), of E]
  have run: "Appointment_save E st ?self =
         (send_bot_notification E ?st1 (ap_driver ap) (cancel_text E (ap_slot ap)), ?res, None)"
    using f r assms by (auto simp: Let_def cancel_text_def)
  have "au_id (ap_car ap) = Some (r_car_id r)" by (rule r(5))
  moreover have "appointments ?st1 = map (\<lambda>x. if r_id x = pk
          then row_of pk (r_car_id r) (ap\<lparr>ap_status := v, ap_updated_at := Some (now E)\<rparr>)
          else x) (appointments st)"
    by simp
  moreover have "slots ?st1 = (if s_status (ap_slot ap) \<noteq> FREE
          then map (\<lambda>r. if s_id r = s_id (ap_slot ap) then r\<lparr>s_status := FREE\<rparr> else r) (slots st)
          else slots st)"
    by simp
  moreover have "notifications ?st1 = notifications st" "events ?st1 = events st"
      "automobiles ?st1 = automobiles st" "drivers ?st1 = drivers st"
    by simp_all
  moreover have "?res = (if s_status (ap_slot ap) \<noteq> FREE
          then ap\<lparr>ap_status := v, ap_updated_at := Some (now E),
                 ap_slot := (ap_slot ap)\<lparr>s_status := FREE\<rparr>\<rparr>
          else ap\<lparr>ap_status := v, ap_updated_at := Some (now E)\<rparr>)"
    by simp
  ultimately show ?thesis using run by blast
qed

lemma cancel_user_save:
  "get_object st pk = Some ap \<Longrightarrow>
   Appointment_save E st (ap\<lparr>ap_status := CANCELLED_USER\<rparr>) = (st', ap', None) \<Longrightarrow>
   cancel_user E st pk = (st', Response (Appointment_data ap') 200)"
  by (simp add: cancel_user_def)

section \<open>Saving without a change of status\<close>

text \<open>The example booking, evaluated.\<close>

lemma booked_eq:
  "booked = fleet\<lparr>slots := [slot1\<lparr>s_status := BUSY\<rparr>],
      appointments := [\<lparr>r_id = 1, r_slot_id = 1, r_driver_id = 1, r_car_id = 1, r_status = ACTIVE,
         r_created_at = Some (now example_env), r_updated_at = Some (now example_env)\<rparr>]\<rparr>"
  by (simp add: booked_def AppointmentViewSet_create_def Slot_objects_get_def Driver_objects_get_def
      Automobile_objects_get_def fleet_def empty_state_def slot1_def driver1_def driver2_def
      car1_def car2_def example_car_def request_def Appointment_save_def Appointment_super_save_def
      new_appointment_def slot_status_set_def Slot_save_status_def row_of_def fresh_pk_def Let_def)

lemma get_object_booked: "get_object booked 1 = Some appointment1"
  by (simp add: booked_eq get_object_def Appointment_objects_get_def Appointment_load_def
      Slot_objects_get_def Driver_objects_get_def
      Automobile_objects_get_def fleet_def empty_state_def slot1_def driver1_def driver2_def
      car1_def car2_def example_car_def appointment1_def)

text \<open>
  Claim C9. When an appointment that is in the table is saved with the status its row
  already has, whatever that status is, \<open>Appointment.save\<close> writes no slot and no
  notification and attempts no delivery: the slot table, the notification table and the
  trace are as before. So for an existing appointment a slot is written or a
  notification created only by a save whose status differs from the stored one.
\<close>

theorem Appointment_save_same_status_frame:
  assumes "ap_id self = Some pk" and "Appointment_objects_get st pk = Some p"
    and "r_status p = ap_status self"
  shows "slots (fst (Appointment_save E st self)) = slots st
       \<and> notifications (fst (Appointment_save E st self)) = notifications st
       \<and> events (fst (Appointment_save E st self)) = events st"
  using assms
  by (auto simp: Appointment_save_def Appointment_super_save_def Let_def split: option.splits)

text \<open>Saving the ACTIVE appointment of the example again leaves its slot BUSY.\<close>

theorem Appointment_save_same_status_frame_witness:
  "ap_id appointment1 = Some 1
   \<and> map_option r_status (Appointment_objects_get booked 1) = Some (ap_status appointment1)
   \<and> slots (fst (Appointment_save example_env booked appointment1)) = slots booked
   \<and> notifications (fst (Appointment_save example_env booked appointment1)) = []
   \<and> events (fst (Appointment_save example_env booked appointment1)) = []"
proof -
  have h1: "ap_id appointment1 = Some 1" by (simp add: appointment1_def)
  have h2: "Appointment_objects_get booked 1 = Some \<lparr>r_id = 1, r_slot_id = 1, r_driver_id = 1,
         r_car_id = 1, r_status = ACTIVE,
         r_created_at = Some (now example_env), r_updated_at = Some (now example_env)\<rparr>"
    by (simp add: booked_eq Appointment_objects_get_def)
  have h3: "r_status \<lparr>r_id = 1, r_slot_id = 1, r_driver_id = 1,
         r_car_id = 1, r_status = ACTIVE,
         r_created_at = Some (now example_env), r_updated_at = Some (now example_env)\<rparr>
        = ap_status appointment1"
    by (simp add: appointment1_def)
  show ?thesis
    using Appointment_save_same_status_frame [OF h1 h2 h3, of example_env] h1 h2
    by (simp add: appointment1_def) (simp add: booked_eq fleet_def empty_state_def)
qed

section \<open>Notification on cancellation\<close>

text \<open>
  Claim C5. When a loaded appointment that is ACTIVE is saved with a cancelled status
  (by \<open>cancel_user\<close>, or with \<open>CANCELLED_MANAGER\<close>), the save raises nothing and
  \<open>cancel_user\<close> answers 200; exactly one notification row is added, for the driver of
  the appointment; in the trace the row is written first and every event after it,
  the delivery attempt among them, writes no further row; afterwards the appointment is
  stored as cancelled and its slot is FREE. Nothing of this depends on delivery: with
  any other bot token (or none) and any other behaviour of the Telegram endpoint
  (a response with any status code, or an exception such as a timeout), and whatever
  the driver's chat identifier is, the result of the save, the slot table, the
  appointment table and the notification table are the same.
\<close>

theorem cancel_active_notifies_once:
  assumes "get_object st pk = Some ap" and "ap_status ap = ACTIVE"
    and "v = CANCELLED_USER \<or> v = CANCELLED_MANAGER"
  shows "\<exists>st' ap' n rest.
      Appointment_save E st (ap\<lparr>ap_status := v\<rparr>) = (st', ap', None)
      \<and> (v = CANCELLED_USER \<longrightarrow> cancel_user E st pk = (st', Response (Appointment_data ap') 200))
      \<and> notifications st' = notifications st @ [n]
      \<and> n_driver_id n = d_id (ap_driver ap)
      \<and> events st' = events st @ Notification_written (n_id n) # rest
      \<and> (\<forall>e \<in> set rest. \<forall>k. e \<noteq> Notification_written k)
      \<and> map_option r_status (Appointment_objects_get st' pk) = Some v
      \<and> map_option s_status (Slot_objects_get st' (s_id (ap_slot ap))) = Some FREE
      \<and> (\<forall>tok post.
            snd (Appointment_save (E\<lparr>TELEGRAM_BOT_TOKEN := tok, client_post := post\<rparr>) st
                   (ap\<lparr>ap_status := v\<rparr>)) = (ap', None)
            \<and> slots (fst (Appointment_save (E\<lparr>TELEGRAM_BOT_TOKEN := tok, client_post := post\<rparr>) st
                   (ap\<lparr>ap_status := v\<rparr>))) = slots st'
            \<and> appointments (fst (Appointment_save (E\<lparr>TELEGRAM_BOT_TOKEN := tok, client_post := post\<rparr>) st
                   (ap\<lparr>ap_status := v\<rparr>))) = appointments st'
            \<and> notifications (fst (Appointment_save (E\<lparr>TELEGRAM_BOT_TOKEN := tok, client_post := post\<rparr>) st
                   (ap\<lparr>ap_status := v\<rparr>))) = notifications st')"
proof -
  have ne: "ap_status ap \<noteq> v" using assms(2,3) by auto
  from get_objectD [OF assms(1)] obtain r where r: "Appointment_objects_get st pk = Some r"
      "Slot_objects_get st (r_slot_id r) = Some (ap_slot ap)" "s_id (ap_slot ap) = r_slot_id r"
    by blast
  note form = Appointment_save_cancel [OF assms(1) ne assms(3)]
  from form [of E] obtain c st1 obj where a:
      "appointments st1 = map (\<lambda>r. if r_id r = pk
          then row_of pk c (ap\<lparr>ap_status := v, ap_updated_at := Some (now E)\<rparr>)
          else r) (appointments st)"
      "slots st1 = (if s_status (ap_slot ap) \<noteq> FREE
          then map (\<lambda>r. if s_id r = s_id (ap_slot ap) then r\<lparr>s_status := FREE\<rparr> else r) (slots st)
          else slots st)"
      "notifications st1 = notifications st" "events st1 = events st"
      "obj = (if s_status (ap_slot ap) \<noteq> FREE
          then ap\<lparr>ap_status := v, ap_updated_at := Some (now E),
                 ap_slot := (ap_slot ap)\<lparr>s_status := FREE\<rparr>\<rparr>
          else ap\<lparr>ap_status := v, ap_updated_at := Some (now E)\<rparr>)"
      "au_id (ap_car ap) = Some c"
      and run: "Appointment_save E st (ap\<lparr>ap_status := v\<rparr>) =
         (send_bot_notification E st1 (ap_driver ap) (cancel_text E (ap_slot ap)), obj, None)"
    by blast
  let ?st' = "send_bot_notification E st1 (ap_driver ap) (cancel_text E (ap_slot ap))"
  let ?n = "\<lparr>n_id = fresh_pk (map n_id (notifications st)), n_driver_id = d_id (ap_driver ap),
             n_text = cancel_text E (ap_slot ap), n_created_at = now E\<rparr>"
  have usr: "v = CANCELLED_USER \<longrightarrow> cancel_user E st pk = (?st', Response (Appointment_data obj) 200)"
    using run assms(1) by (auto intro: cancel_user_save)
  have n: "notifications ?st' = notifications st @ [?n]"
    by (simp add: send_bot_notification_tables a)
  from send_bot_notification_events [of E st1 "ap_driver ap" "cancel_text E (ap_slot ap)"]
  obtain rest where ev: "events ?st' = events st @ Notification_written (n_id ?n) # rest"
      "\<forall>e \<in> set rest. \<forall>k. e \<noteq> Notification_written k"
    by (auto simp: a)
  have row: "map_option r_status (Appointment_objects_get ?st' pk) = Some v"
    using r(1)
    by (simp add: Appointment_objects_get_def send_bot_notification_tables a
        find_map_upd_id [where p = r] row_of_def)
  have slot: "map_option s_status (Slot_objects_get ?st' (s_id (ap_slot ap))) = Some FREE"
    using r(2,3)
    by (simp add: Slot_objects_get_def send_bot_notification_tables a find_slot_map_status)
  have indep: "\<forall>tok post.
            snd (Appointment_save (E\<lparr>TELEGRAM_BOT_TOKEN := tok, client_post := post\<rparr>) st
                   (ap\<lparr>ap_status := v\<rparr>)) = (obj, None)
            \<and> slots (fst (Appointment_save (E\<lparr>TELEGRAM_BOT_TOKEN := tok, client_post := post\<rparr>) st
                   (ap\<lparr>ap_status := v\<rparr>))) = slots ?st'
            \<and> appointments (fst (Appointment_save (E\<lparr>TELEGRAM_BOT_TOKEN := tok, client_post := post\<rparr>) st
                   (ap\<lparr>ap_status := v\<rparr>))) = appointments ?st'
            \<and> notifications (fst (Appointment_save (E\<lparr>TELEGRAM_BOT_TOKEN := tok, client_post := post\<rparr>) st
                   (ap\<lparr>ap_status := v\<rparr>))) = notifications ?st'"
  proof (intro allI)
    fix tok post
    let ?E = "E\<lparr>TELEGRAM_BOT_TOKEN := tok, client_post := post\<rparr>"
    from form [of ?E] obtain c2 st2 obj2 where b:
      "appointments st2 = map (\<lambda>r. if r_id r = pk
          then row_of pk c2 (ap\<lparr>ap_status := v, ap_updated_at := Some (now ?E)\<rparr>)
          else r) (appointments st)"
      "slots st2 = (if s_status (ap_slot ap) \<noteq> FREE
          then map (\<lambda>r. if s_id r = s_id (ap_slot ap) then r\<lparr>s_status := FREE\<rparr> else r) (slots st)
          else slots st)"
      "notifications st2 = notifications st"
      "obj2 = (if s_status (ap_slot ap) \<noteq> FREE
          then ap\<lparr>ap_status := v, ap_updated_at := Some (now ?E),
                 ap_slot := (ap_slot ap)\<lparr>s_status := FREE\<rparr>\<rparr>
          else ap\<lparr>ap_status := v, ap_updated_at := Some (now ?E)\<rparr>)"
      "au_id (ap_car ap) = Some c2"
      and run2: "Appointment_save ?E st (ap\<lparr>ap_status := v\<rparr>) =
         (send_bot_notification ?E st2 (ap_driver ap) (cancel_text ?E (ap_slot ap)), obj2, None)"
      by blast
    have "c2 = c" using a(6) b(5) by simp
    then show "snd (Appointment_save ?E st (ap\<lparr>ap_status := v\<rparr>)) = (obj, None)
            \<and> slots (fst (Appointment_save ?E st (ap\<lparr>ap_status := v\<rparr>))) = slots ?st'
            \<and> appointments (fst (Appointment_save ?E st (ap\<lparr>ap_status := v\<rparr>))) = appointments ?st'
            \<and> notifications (fst (Appointment_save ?E st (ap\<lparr>ap_status := v\<rparr>))) = notifications ?st'"
      by (simp add: run2 send_bot_notification_tables a b)
  qed
  show ?thesis
    using run usr n ev row slot indep
    by (intro exI [of _ ?st'] exI [of _ obj] exI [of _ ?n] exI [of _ rest]) simp
qed

text \<open>
  The booked appointment of the example is cancelled by its user while the endpoint
  raises: the answer is 200, one notification is written for driver 1, and the trace
  shows the row written before the attempt and the exception logged.
\<close>

theorem cancel_active_notifies_once_witness:
  "get_object booked 1 = Some appointment1 \<and> ap_status appointment1 = ACTIVE
   \<and> snd (cancel_user (example_env\<lparr>TELEGRAM_BOT_TOKEN := Some (ascii ''token'')\<rparr>) booked 1)
       = Response (Appointment_data (appointment1\<lparr>ap_status := CANCELLED_USER,
            ap_slot := slot1\<rparr>)) 200
   \<and> map n_driver_id (notifications
        (fst (cancel_user (example_env\<lparr>TELEGRAM_BOT_TOKEN := Some (ascii ''token'')\<rparr>) booked 1)))
       = [1]
   \<and> events (fst (cancel_user (example_env\<lparr>TELEGRAM_BOT_TOKEN := Some (ascii ''token'')\<rparr>) booked 1))
       = [Notification_written 1,
          Telegram_post (ascii ''token'') 1001 (cancel_text example_env slot1),
          Printed Log_exception]"
proof -
  have h1: "get_object booked 1 = Some appointment1" by (rule get_object_booked)
  have h2: "ap_status appointment1 = ACTIVE" by (simp add: appointment1_def)
  have h3: "CANCELLED_USER = CANCELLED_USER \<or> CANCELLED_USER = CANCELLED_MANAGER" by simp
  let ?E = "example_env\<lparr>TELEGRAM_BOT_TOKEN := Some (ascii ''token'')\<rparr>"
  from cancel_active_notifies_once [OF h1 h2 h3, of ?E]
  obtain st' ap' n rest where a: "cancel_user ?E booked 1 = (st', Response (Appointment_data ap') 200)"
      "notifications st' = notifications booked @ [n]" "n_driver_id n = d_id (ap_driver appointment1)"
    by blast
  have ev: "cancel_user ?E booked 1 =
      (send_bot_notification ?E
         (booked\<lparr>appointments := [\<lparr>r_id = 1, r_slot_id = 1, r_driver_id = 1, r_car_id = 1,
             r_status = CANCELLED_USER,
             r_created_at = Some (now example_env), r_updated_at = Some (now example_env)\<rparr>],
           slots := [slot1]\<rparr>) driver1 (cancel_text ?E slot1),
       Response (Appointment_data (appointment1\<lparr>ap_status := CANCELLED_USER,
            ap_slot := slot1\<rparr>)) 200)"
    unfolding cancel_user_def get_object_booked
    by (simp add: Appointment_save_def Appointment_super_save_def
        Let_def appointment1_def car1_def Appointment_objects_get_def booked_eq slot_status_set_def
        Slot_save_status_def slot1_def fleet_def empty_state_def row_of_def driver1_def
        cancel_text_def)
  have "map n_driver_id (notifications st') = [1]"
    using a(2,3) by (simp add: booked_eq fleet_def empty_state_def appointment1_def driver1_def)
  moreover have "events (fst (cancel_user ?E booked 1))
       = [Notification_written 1,
          Telegram_post (ascii ''token'') 1001 (cancel_text example_env slot1),
          Printed Log_exception]"
    by (simp only: ev fst_conv)
      (simp add: send_bot_notification_def Notification_objects_create_def print_line_def
        Let_def booked_eq fleet_def empty_state_def driver1_def fresh_pk_def ascii_def
        example_env_def cancel_text_def)
  ultimately show ?thesis using h1 h2 a(1) ev by simp
qed

section \<open>Cancelling what is already cancelled\<close>

lemma Appointment_save_unchanged_status:
  assumes "get_object st pk = Some ap"
  shows "\<exists>c. Appointment_save E st ap =
     (st\<lparr>appointments := map (\<lambda>r. if r_id r = pk
          then row_of pk c (ap\<lparr>ap_updated_at := Some (now E)\<rparr>) else r) (appointments st)\<rparr>,
      ap\<lparr>ap_updated_at := Some (now E)\<rparr>, None)"
proof -
  from get_objectD [OF assms] obtain r where r: "Appointment_objects_get st pk = Some r"
      "ap_id ap = Some pk" "ap_status ap = r_status r" "ap_slot ap \<in> set (slots st)"
      "au_id (ap_car ap) = Some (r_car_id r)"
    by blast
  from Appointment_save_existing [OF r(2) r(1) r(5) r(4), of E] r(3)
  show ?thesis by (intro exI [of _ "r_car_id r"]) (simp add: Let_def)
qed

lemma Appointment_save_stored_status:
  assumes "get_object st pk = Some ap" and "v = CANCELLED_USER \<or> v = CANCELLED_MANAGER"
  shows "\<exists>st' ap'. Appointment_save E st (ap\<lparr>ap_status := v\<rparr>) = (st', ap', None)
      \<and> ap_status ap' = v
      \<and> map_option r_status (Appointment_objects_get st' pk) = Some v
      \<and> (ap_status ap = v \<longrightarrow> slots st' = slots st \<and> notifications st' = notifications st
            \<and> events st' = events st)"
proof (cases "ap_status ap = v")
  case True
  then have same: "ap\<lparr>ap_status := v\<rparr> = ap" by (cases ap) simp
  from get_objectD [OF assms(1)] obtain r where r: "Appointment_objects_get st pk = Some r"
    by blast
  from Appointment_save_unchanged_status [OF assms(1), of E] obtain c where
    "Appointment_save E st ap =
     (st\<lparr>appointments := map (\<lambda>r. if r_id r = pk
          then row_of pk c (ap\<lparr>ap_updated_at := Some (now E)\<rparr>) else r) (appointments st)\<rparr>,
      ap\<lparr>ap_updated_at := Some (now E)\<rparr>, None)"
    by blast
  then show ?thesis
    using True r
    by (simp add: same Appointment_objects_get_def find_map_upd_id [where p = r] row_of_def)
next
  case False
  from get_objectD [OF assms(1)] obtain r where r: "Appointment_objects_get st pk = Some r"
    by blast
  from Appointment_save_cancel [OF assms(1) False assms(2), of E] obtain c st1 obj where a:
      "appointments st1 = map (\<lambda>r. if r_id r = pk
          then row_of pk c (ap\<lparr>ap_status := v, ap_updated_at := Some (now E)\<rparr>)
          else r) (appointments st)"
      "obj = (if s_status (ap_slot ap) \<noteq> FREE
          then ap\<lparr>ap_status := v, ap_updated_at := Some (now E),
                 ap_slot := (ap_slot ap)\<lparr>s_status := FREE\<rparr>\<rparr>
          else ap\<lparr>ap_status := v, ap_updated_at := Some (now E)\<rparr>)"
      and run: "Appointment_save E st (ap\<lparr>ap_status := v\<rparr>) =
         (send_bot_notification E st1 (ap_driver ap) (cancel_text E (ap_slot ap)), obj, None)"
    by blast
  have "ap_status obj = v" using a(2) by simp
  moreover have "map_option r_status (Appointment_objects_get
      (send_bot_notification E st1 (ap_driver ap) (cancel_text E (ap_slot ap))) pk) = Some v"
    using r
    by (simp add: Appointment_objects_get_def send_bot_notification_tables a
        find_map_upd_id [where p = r] row_of_def)
  ultimately show ?thesis using run False by simp
qed

text \<open>The example after the manager's cancellation, and the user's cancellation after it.\<close>

lemma released_eq:
  "released = fleet\<lparr>slots := [slot1],
      appointments := [\<lparr>r_id = 1, r_slot_id = 1, r_driver_id = 1, r_car_id = 1,
         r_status = CANCELLED_MANAGER,
         r_created_at = Some (now example_env), r_updated_at = Some (now example_env)\<rparr>],
      notifications := [\<lparr>n_id = 1, n_driver_id = 1, n_text = cancel_text example_env slot1,
         n_created_at = now example_env\<rparr>],
      events := [Notification_written 1, Printed Log_no_token]\<rparr>"
  unfolding released_def
  by (simp add: Appointment_save_def Appointment_super_save_def
        Let_def appointment1_def car1_def Appointment_objects_get_def booked_eq slot_status_set_def
        Slot_save_status_def slot1_def fleet_def empty_state_def row_of_def driver1_def
        cancel_text_def send_bot_notification_def Notification_objects_create_def print_line_def
        fresh_pk_def example_env_def)

lemma get_object_released: "get_object released 1 = Some appointment1_released"
  by (simp add: released_eq get_object_def Appointment_objects_get_def Appointment_load_def
      Slot_objects_get_def Driver_objects_get_def
      Automobile_objects_get_def fleet_def empty_state_def slot1_def driver1_def driver2_def
      car1_def car2_def example_car_def appointment1_def appointment1_released_def)

lemma cancel_user_released:
  "cancel_user example_env released 1 =
     (released\<lparr>appointments := [\<lparr>r_id = 1, r_slot_id = 1, r_driver_id = 1, r_car_id = 1,
         r_status = CANCELLED_USER,
         r_created_at = Some (now example_env), r_updated_at = Some (now example_env)\<rparr>],
       notifications := notifications released @
         [\<lparr>n_id = 2, n_driver_id = 1, n_text = cancel_text example_env slot1,
           n_created_at = now example_env\<rparr>],
       events := events released @ [Notification_written 2, Printed Log_no_token]\<rparr>,
      Response (Appointment_data (appointment1_released\<lparr>ap_status := CANCELLED_USER\<rparr>)) 200)"
  unfolding cancel_user_def get_object_released
  by (simp add: Appointment_save_def Appointment_super_save_def appointment1_released_def
        Let_def appointment1_def car1_def Appointment_objects_get_def released_eq slot_status_set_def
        Slot_save_status_def slot1_def fleet_def empty_state_def row_of_def driver1_def
        cancel_text_def send_bot_notification_def Notification_objects_create_def print_line_def
        fresh_pk_def example_env_def)

lemma get_object_recancelled:
  "get_object recancelled 1 = Some (appointment1_released\<lparr>ap_status := CANCELLED_USER\<rparr>)"
  unfolding recancelled_def cancel_user_released fst_conv
  by (simp add: released_eq get_object_def Appointment_objects_get_def Appointment_load_def
      Slot_objects_get_def Driver_objects_get_def
      Automobile_objects_get_def fleet_def empty_state_def slot1_def driver1_def driver2_def
      car1_def car2_def example_car_def appointment1_def appointment1_released_def)

text \<open>
  Claim C3, as the code has it. No cancellation is refused: for every appointment whose
  stored status is not ACTIVE, \<open>cancel_user\<close> answers 200 with the appointment in status
  \<open>CANCELLED_USER\<close>, which is then its stored status, and a save with
  \<open>CANCELLED_MANAGER\<close> raises nothing and stores that status. When the stored status is
  already the one being saved, the slot table, the notification table and the trace are
  unchanged.
\<close>

theorem cancel_of_cancelled_succeeds:
  assumes "get_object st pk = Some ap" and "ap_status ap \<noteq> ACTIVE"
  shows "(\<exists>st' ap'. cancel_user E st pk = (st', Response (Appointment_data ap') 200)
            \<and> ap_status ap' = CANCELLED_USER
            \<and> map_option r_status (Appointment_objects_get st' pk) = Some CANCELLED_USER
            \<and> (ap_status ap = CANCELLED_USER \<longrightarrow>
                  slots st' = slots st \<and> notifications st' = notifications st
                  \<and> events st' = events st))
       \<and> (\<exists>st' ap'. Appointment_save E st (ap\<lparr>ap_status := CANCELLED_MANAGER\<rparr>) = (st', ap', None)
            \<and> map_option r_status (Appointment_objects_get st' pk) = Some CANCELLED_MANAGER
            \<and> (ap_status ap = CANCELLED_MANAGER \<longrightarrow>
                  slots st' = slots st \<and> notifications st' = notifications st
                  \<and> events st' = events st))"
proof
  from Appointment_save_stored_status [OF assms(1), of CANCELLED_USER E]
  obtain st' ap' where a: "Appointment_save E st (ap\<lparr>ap_status := CANCELLED_USER\<rparr>) = (st', ap', None)"
      "ap_status ap' = CANCELLED_USER"
      "map_option r_status (Appointment_objects_get st' pk) = Some CANCELLED_USER"
      "ap_status ap = CANCELLED_USER \<longrightarrow> slots st' = slots st \<and> notifications st' = notifications st
            \<and> events st' = events st"
    by auto
  from cancel_user_save [OF assms(1) a(1)] a(2,3,4)
  show "\<exists>st' ap'. cancel_user E st pk = (st', Response (Appointment_data ap') 200)
            \<and> ap_status ap' = CANCELLED_USER
            \<and> map_option r_status (Appointment_objects_get st' pk) = Some CANCELLED_USER
            \<and> (ap_status ap = CANCELLED_USER \<longrightarrow>
                  slots st' = slots st \<and> notifications st' = notifications st
                  \<and> events st' = events st)"
    by blast
  from Appointment_save_stored_status [OF assms(1), of CANCELLED_MANAGER E]
  show "\<exists>st' ap'. Appointment_save E st (ap\<lparr>ap_status := CANCELLED_MANAGER\<rparr>) = (st', ap', None)
            \<and> map_option r_status (Appointment_objects_get st' pk) = Some CANCELLED_MANAGER
            \<and> (ap_status ap = CANCELLED_MANAGER \<longrightarrow>
                  slots st' = slots st \<and> notifications st' = notifications st
                  \<and> events st' = events st)"
    by auto
qed

text \<open>
  The appointment that the manager cancelled is cancelled again by its user, and then
  once more: the first time its status changes, the second time nothing but the row is
  written.
\<close>

theorem cancel_of_cancelled_succeeds_witness:
  "get_object released 1 = Some appointment1_released
   \<and> ap_status appointment1_released = CANCELLED_MANAGER
   \<and> (\<exists>st' ap'. cancel_user example_env released 1 = (st', Response (Appointment_data ap') 200)
         \<and> ap_status ap' = CANCELLED_USER
         \<and> map_option r_status (Appointment_objects_get st' 1) = Some CANCELLED_USER)
   \<and> map_option ap_status (get_object recancelled 1) = Some CANCELLED_USER
   \<and> (\<exists>st' ap'. cancel_user example_env recancelled 1 = (st', Response (Appointment_data ap') 200)
         \<and> slots st' = slots recancelled \<and> notifications st' = notifications recancelled
         \<and> events st' = events recancelled)"
proof -
  have h1: "get_object released 1 = Some appointment1_released" by (rule get_object_released)
  have h2: "ap_status appointment1_released \<noteq> ACTIVE" by (simp add: appointment1_released_def)
  have h3: "ap_status (appointment1_released\<lparr>ap_status := CANCELLED_USER\<rparr>) \<noteq> ACTIVE" by simp
  have m: "ap_status appointment1_released = CANCELLED_MANAGER"
    by (simp add: appointment1_released_def)
  have u: "map_option ap_status (get_object recancelled 1) = Some CANCELLED_USER"
    by (simp only: get_object_recancelled) simp
  from cancel_of_cancelled_succeeds [OF h1 h2, of example_env]
  have a: "\<exists>st' ap'. cancel_user example_env released 1 = (st', Response (Appointment_data ap') 200)
         \<and> ap_status ap' = CANCELLED_USER
         \<and> map_option r_status (Appointment_objects_get st' 1) = Some CANCELLED_USER"
    by blast
  from cancel_of_cancelled_succeeds [OF get_object_recancelled h3, of example_env]
  have b: "\<exists>st' ap'. cancel_user example_env recancelled 1 = (st', Response (Appointment_data ap') 200)
         \<and> slots st' = slots recancelled \<and> notifications st' = notifications recancelled
         \<and> events st' = events recancelled"
    by (simp add: ex_simps) blast
  from h1 m a u b show ?thesis by blast
qed

text \<open>
  The claim as worded fails there: the stored status is \<open>CANCELLED_MANAGER\<close>, the
  answer is 200 and not an error, the stored status has moved on to \<open>CANCELLED_USER\<close>,
  and a second notification has been written.
\<close>

theorem cancel_of_cancelled_counterexample:
  "map_option r_status (Appointment_objects_get released 1) = Some CANCELLED_MANAGER
   \<and> snd (cancel_user example_env released 1)
       = Response (Appointment_data (appointment1_released\<lparr>ap_status := CANCELLED_USER\<rparr>)) 200
   \<and> map_option r_status (Appointment_objects_get (fst (cancel_user example_env released 1)) 1)
       = Some CANCELLED_USER
   \<and> length (notifications (fst (cancel_user example_env released 1)))
       = Suc (length (notifications released))"
  unfolding cancel_user_released fst_conv snd_conv
  by (simp add: released_eq Appointment_objects_get_def)

section \<open>The occupancy invariant under creation and cancellation\<close>

lemma occupancy_ok_invariant: "occupancy_ok st \<Longrightarrow> slot_invariant st"
  by (auto simp: occupancy_ok_def slot_invariant_def list_all_iff split: if_splits)

lemma filter_replace_by_key:
  "\<not> Q y \<Longrightarrow>
   filter Q (map (\<lambda>x. if r_id x = pk then y else x) xs) = filter (\<lambda>x. Q x \<and> r_id x \<noteq> pk) xs"
  by (induction xs) auto

lemma filter_key_absent:
  "pk \<notin> r_id ` set xs \<Longrightarrow> filter (\<lambda>x. Q x \<and> r_id x \<noteq> pk) xs = filter Q xs"
  by (induction xs) auto

lemma filter_without_key:
  assumes "distinct (map r_id xs)" and "r \<in> set xs" and "r_id r = pk"
  shows "length (filter (\<lambda>x. Q x \<and> r_id x \<noteq> pk) xs) =
         length (filter Q xs) - (if Q r then 1 else 0)"
  using assms
proof (induction xs)
  case Nil
  then show ?case by simp
next
  case (Cons x xs)
  show ?case
  proof (cases "x = r")
    case True
    with Cons.prems have "pk \<notin> r_id ` set xs" by auto
    then have "filter (\<lambda>x. Q x \<and> r_id x \<noteq> pk) xs = filter Q xs"
      by (rule filter_key_absent)
    with True Cons.prems show ?thesis by simp
  next
    case False
    with Cons.prems have r: "r \<in> set xs" and d: "distinct (map r_id xs)" and ne: "r_id x \<noteq> pk"
      by auto
    from Cons.IH [OF d r Cons.prems(3)] ne
    show ?thesis
    proof (cases "Q r")
      case True
      then have "length (filter Q xs) \<ge> 1"
        using r by (metis One_nat_def Suc_leI filter_empty_conv length_greater_0_conv)
      with Cons.IH [OF d r Cons.prems(3)] ne True show ?thesis by auto
    next
      case False
      with Cons.IH [OF d r Cons.prems(3)] ne show ?thesis by simp
    qed
  qed
qed

text \<open>Cancelling an ACTIVE appointment keeps the occupancy of every slot right.\<close>

lemma occupancy_cancel:
  assumes ok: "occupancy_ok st" and get: "get_object st pk = Some ap"
    and act: "ap_status ap = ACTIVE" and v: "v = CANCELLED_USER \<or> v = CANCELLED_MANAGER"
  shows "occupancy_ok (fst (Appointment_save E st (ap\<lparr>ap_status := v\<rparr>)))"
proof -
  have ne: "ap_status ap \<noteq> v" using act v by auto
  from get_objectD [OF get] obtain r where r: "Appointment_objects_get st pk = Some r"
      "r_id r = pk" "r \<in> set (appointments st)" "ap_status ap = r_status r"
      "s_id (ap_slot ap) = r_slot_id r" "ap_slot ap \<in> set (slots st)"
    by blast
  let ?k = "s_id (ap_slot ap)"
  from ok have inv: "\<And>s. s \<in> set (slots st) \<Longrightarrow>
      length (active_on st (s_id s)) = (if s_status s = BUSY then 1 else 0)"
    and dist: "distinct (map r_id (appointments st))"
    by (auto simp: occupancy_ok_def list_all_iff)
  have "r \<in> set (active_on st ?k)" using r act by (simp add: active_on_def)
  then have "length (active_on st ?k) \<noteq> 0" by auto
  with inv [OF r(6)] have busy: "s_status (ap_slot ap) = BUSY" and one: "length (active_on st ?k) = 1"
    by (auto split: if_splits)
  from Appointment_save_cancel [OF get ne v, of E] obtain c st1 obj where a:
      "appointments st1 = map (\<lambda>r. if r_id r = pk
          then row_of pk c (ap\<lparr>ap_status := v, ap_updated_at := Some (now E)\<rparr>)
          else r) (appointments st)"
      "slots st1 = (if s_status (ap_slot ap) \<noteq> FREE
          then map (\<lambda>r. if s_id r = s_id (ap_slot ap) then r\<lparr>s_status := FREE\<rparr> else r) (slots st)
          else slots st)"
      and run: "Appointment_save E st (ap\<lparr>ap_status := v\<rparr>) =
         (send_bot_notification E st1 (ap_driver ap) (cancel_text E (ap_slot ap)), obj, None)"
    by blast
  let ?st' = "send_bot_notification E st1 (ap_driver ap) (cancel_text E (ap_slot ap))"
  let ?y = "row_of pk c (ap\<lparr>ap_status := v, ap_updated_at := Some (now E)\<rparr>)"
  have y: "r_status ?y \<noteq> ACTIVE" "r_id ?y = pk" using v by (auto simp: row_of_def)
  have apps: "appointments ?st' = map (\<lambda>r. if r_id r = pk then ?y else r) (appointments st)"
    by (simp add: send_bot_notification_tables a)
  have sl: "slots ?st' = map (\<lambda>r. if s_id r = ?k then r\<lparr>s_status := FREE\<rparr> else r) (slots st)"
    using busy by (simp add: send_bot_notification_tables a)
  have len: "\<And>j. length (active_on ?st' j) = length (active_on st j) - (if j = ?k then 1 else 0)"
  proof -
    fix j
    let ?Q = "\<lambda>x. r_slot_id x = j \<and> r_status x = ACTIVE"
    have "active_on ?st' j = filter (\<lambda>x. ?Q x \<and> r_id x \<noteq> pk) (appointments st)"
      unfolding active_on_def apps using y(1) by (intro filter_replace_by_key) simp
    then have "length (active_on ?st' j) = length (filter ?Q (appointments st)) - (if ?Q r then 1 else 0)"
      using filter_without_key [OF dist r(3) r(2), of ?Q] by simp
    then show "length (active_on ?st' j) = length (active_on st j) - (if j = ?k then 1 else 0)"
      using r act by (auto simp: active_on_def)
  qed
  have "list_all (\<lambda>s. length (active_on ?st' (s_id s)) = (if s_status s = BUSY then 1 else 0))
          (slots ?st')"
    unfolding sl list_all_iff
  proof
    fix s' assume "s' \<in> set (map (\<lambda>r. if s_id r = ?k then r\<lparr>s_status := FREE\<rparr> else r) (slots st))"
    then obtain s where s: "s \<in> set (slots st)"
        "s' = (if s_id s = ?k then s\<lparr>s_status := FREE\<rparr> else s)"
      by auto
    show "length (active_on ?st' (s_id s')) = (if s_status s' = BUSY then 1 else 0)"
    proof (cases "s_id s = ?k")
      case True
      then show ?thesis using s len [of ?k] one by simp
    next
      case False
      then show ?thesis using s len [of "s_id s"] inv [OF s(1)] by simp
    qed
  qed
  moreover have "distinct (map r_id (appointments ?st'))"
  proof -
    have "map r_id (appointments ?st') = map r_id (appointments st)"
      unfolding apps using y(2) by (induction "appointments st") auto
    then show ?thesis using dist by simp
  qed
  ultimately show ?thesis by (simp add: occupancy_ok_def run)
qed


lemma fresh_pk_not_key: "fresh_pk (map r_id xs) \<notin> r_id ` set xs"
  using fresh_pk_fresh [of "map r_id xs"] by simp

text \<open>A creation whose slot is FREE, or whose status is not ACTIVE, keeps it right too.\<close>

lemma occupancy_create:
  assumes ok: "occupancy_ok st" and s: "Slot_objects_get st (req_slot_id rq) = Some s"
    and g: "s_status s = FREE \<or> (req_status rq \<noteq> None \<and> req_status rq \<noteq> Some ACTIVE)"
  shows "occupancy_ok (fst (AppointmentViewSet_create E st rq))"
proof (cases "Driver_objects_get st (req_driver rq)")
  case None
  with ok s show ?thesis by (simp add: AppointmentViewSet_create_def)
next
  case (Some d)
  show ?thesis
  proof (cases "Automobile_objects_get st (req_car rq)")
    case None
    with ok s Some show ?thesis by (simp add: AppointmentViewSet_create_def)
  next
    case (Some c)
    let ?v = "case req_status rq of None \<Rightarrow> ACTIVE | Some v \<Rightarrow> v"
    let ?k = "fresh_pk (map r_id (appointments st))"
    from s have s1: "s \<in> set (slots st)" by (auto simp: Slot_objects_get_def dest: find_SomeD)
    from Some have c1: "au_id c = Some (req_car rq)"
      by (auto simp: Automobile_objects_get_def dest: find_SomeD)
    from ok have inv: "\<And>s. s \<in> set (slots st) \<Longrightarrow>
        length (active_on st (s_id s)) = (if s_status s = BUSY then 1 else 0)"
      and dist: "distinct (map r_id (appointments st))"
      by (auto simp: occupancy_ok_def list_all_iff)
    let ?obj = "(new_appointment s d c ?v)\<lparr>ap_id := Some ?k, ap_created_at := Some (now E),
                     ap_updated_at := Some (now E)\<rparr>"
    let ?row = "row_of ?k (req_car rq) ?obj"
    let ?st1 = "st\<lparr>appointments := appointments st @ [?row]\<rparr>"
    let ?st' = "if ?v = ACTIVE \<and> s_status s \<noteq> BUSY
         then ?st1\<lparr>slots := map (\<lambda>r. if s_id r = s_id s then r\<lparr>s_status := BUSY\<rparr> else r) (slots st)\<rparr>
         else ?st1"
    have run: "fst (AppointmentViewSet_create E st rq) = ?st'"
      using s \<open>Driver_objects_get st (req_driver rq) = Some d\<close> Some
        Appointment_save_new [OF c1 s1, of E d ?v]
      by (simp add: AppointmentViewSet_create_def Let_def)
    have row: "r_id ?row = ?k" "r_slot_id ?row = s_id s" "r_status ?row = ?v"
      by (simp_all add: row_of_def new_appointment_def)
    have apps: "appointments ?st' = appointments st @ [?row]" by simp
    have len: "\<And>j. length (active_on ?st' j) =
        length (active_on st j) + (if j = s_id s \<and> ?v = ACTIVE then 1 else 0)"
      unfolding active_on_def apps using row by simp
    have d': "distinct (map r_id (appointments ?st'))"
      unfolding apps using dist row fresh_pk_not_key [of "appointments st"] by simp
    show ?thesis
    proof (cases "?v = ACTIVE")
      case True
      with g have free: "s_status s = FREE" by (auto split: option.splits)
      with inv [OF s1] have zero: "length (active_on st (s_id s)) = 0" by simp
      have sl: "slots ?st' = map (\<lambda>r. if s_id r = s_id s then r\<lparr>s_status := BUSY\<rparr> else r) (slots st)"
        using True free by simp
      have "list_all (\<lambda>x. length (active_on ?st' (s_id x)) = (if s_status x = BUSY then 1 else 0))
          (slots ?st')"
        unfolding sl list_all_iff
      proof
        fix x' assume "x' \<in> set (map (\<lambda>r. if s_id r = s_id s then r\<lparr>s_status := BUSY\<rparr> else r) (slots st))"
        then obtain x where x: "x \<in> set (slots st)"
            "x' = (if s_id x = s_id s then x\<lparr>s_status := BUSY\<rparr> else x)"
          by auto
        show "length (active_on ?st' (s_id x')) = (if s_status x' = BUSY then 1 else 0)"
        proof (cases "s_id x = s_id s")
          case True
          then show ?thesis using x len [of "s_id s"] zero \<open>?v = ACTIVE\<close> by simp
        next
          case False
          then show ?thesis using x len [of "s_id x"] inv [OF x(1)] by simp
        qed
      qed
      with d' show ?thesis unfolding run occupancy_ok_def by blast
    next
      case False
      then have sl: "slots ?st' = slots st" by simp
      have "list_all (\<lambda>x. length (active_on ?st' (s_id x)) = (if s_status x = BUSY then 1 else 0))
          (slots ?st')"
        unfolding sl list_all_iff using len inv False by simp
      with d' show ?thesis unfolding run occupancy_ok_def by blast
    qed
  qed
qed

lemma occupancy_start:
  "appointments st = [] \<Longrightarrow> list_all (\<lambda>s. s_status s = FREE) (slots st) \<Longrightarrow> occupancy_ok st"
  by (auto simp: occupancy_ok_def active_on_def list_all_iff)

lemma cancel_user_fst:
  "get_object st pk = Some ap \<Longrightarrow>
   fst (cancel_user E st pk) = fst (Appointment_save E st (ap\<lparr>ap_status := CANCELLED_USER\<rparr>))"
  by (simp add: cancel_user_def split: prod.splits option.splits)

lemma guarded_run_occupancy: "guarded_run st \<Longrightarrow> occupancy_ok st"
proof (induction rule: guarded_run.induct)
  case (start st)
  then show ?case by (rule occupancy_start)
next
  case (create st rq s E)
  then show ?case by (intro occupancy_create)
next
  case (by_user st pk ap E)
  then show ?case by (simp add: cancel_user_fst occupancy_cancel)
next
  case (by_manager st pk ap E)
  then show ?case by (simp add: occupancy_cancel)
qed

text \<open>The example runs, evaluated.\<close>

lemma fleet_start: "appointments fleet = [] \<and> list_all (\<lambda>s. s_status s = FREE) (slots fleet)"
  by (simp add: fleet_def empty_state_def slot1_def)

lemma fleet_slot: "Slot_objects_get fleet (req_slot_id (request 1 d c)) = Some slot1 \<and> s_status slot1 = FREE"
  by (simp add: Slot_objects_get_def fleet_def empty_state_def slot1_def request_def)

lemma rebooked_eq:
  "rebooked = released\<lparr>slots := [slot1\<lparr>s_status := BUSY\<rparr>],
      appointments := appointments released @
        [\<lparr>r_id = 2, r_slot_id = 1, r_driver_id = 2, r_car_id = 2, r_status = ACTIVE,
          r_created_at = Some (now example_env), r_updated_at = Some (now example_env)\<rparr>]\<rparr>"
  by (simp add: rebooked_def released_eq AppointmentViewSet_create_def Slot_objects_get_def
      Driver_objects_get_def
      Automobile_objects_get_def fleet_def empty_state_def slot1_def driver1_def driver2_def
      car1_def car2_def example_car_def request_def Appointment_save_def Appointment_super_save_def
      new_appointment_def slot_status_set_def Slot_save_status_def row_of_def fresh_pk_def Let_def)

lemma get_object_rebooked:
  "get_object rebooked 1 = Some (appointment1_released\<lparr>ap_slot := slot1\<lparr>s_status := BUSY\<rparr>\<rparr>)"
  by (simp add: rebooked_eq released_eq get_object_def Appointment_objects_get_def
      Appointment_load_def Slot_objects_get_def Driver_objects_get_def
      Automobile_objects_get_def fleet_def empty_state_def slot1_def driver1_def driver2_def
      car1_def car2_def example_car_def appointment1_def appointment1_released_def)

lemma stale_cancel_tables:
  "slots (fst (cancel_user example_env rebooked 1)) = [slot1]
   \<and> map (\<lambda>r. (r_id r, r_slot_id r, r_status r)) (appointments (fst (cancel_user example_env rebooked 1)))
       = [(1, 1, CANCELLED_USER), (2, 1, ACTIVE)]"
  unfolding cancel_user_def get_object_rebooked
  by (simp add: Appointment_save_def Appointment_super_save_def appointment1_released_def
        Let_def appointment1_def car1_def Appointment_objects_get_def rebooked_eq released_eq
        slot_status_set_def send_bot_notification_tables
        Slot_save_status_def slot1_def fleet_def empty_state_def row_of_def driver1_def)

lemma double_booked_tables:
  "slots double_booked = [slot1\<lparr>s_status := BUSY\<rparr>]
   \<and> map (\<lambda>r. (r_id r, r_slot_id r, r_status r)) (appointments double_booked)
       = [(1, 1, ACTIVE), (2, 1, ACTIVE)]"
  by (simp add: double_booked_def booked_eq AppointmentViewSet_create_def Slot_objects_get_def
      Driver_objects_get_def
      Automobile_objects_get_def fleet_def empty_state_def slot1_def driver1_def driver2_def
      car1_def car2_def example_car_def request_def Appointment_save_def Appointment_super_save_def
      new_appointment_def slot_status_set_def Slot_save_status_def row_of_def fresh_pk_def Let_def)

lemma active_on_by_triples:
  "length (active_on st k) =
   length (filter (\<lambda>(i, j, v). j = k \<and> v = ACTIVE)
             (map (\<lambda>r. (r_id r, r_slot_id r, r_status r)) (appointments st)))"
  by (simp add: active_on_def filter_map comp_def)

text \<open>
  Claim C1, as the code has it. In every state reached from a calendar of FREE slots
  with no appointment by creations against a slot that is FREE (or with a status that
  is not ACTIVE) and by cancellations, by the user or by the manager, of appointments
  that are ACTIVE, every slot is BUSY if and only if exactly one ACTIVE appointment
  references it, and no slot has more than one; and each of these operations, applied
  in such a state, leads to a state where this holds again.
\<close>

theorem guarded_run_slot_invariant:
  "guarded_run st \<Longrightarrow>
   slot_invariant st
   \<and> list_all (\<lambda>s. length (active_on st (s_id s)) \<le> 1) (slots st)
   \<and> (\<forall>E rq s. Slot_objects_get st (req_slot_id rq) = Some s \<and> s_status s = FREE \<longrightarrow>
         slot_invariant (fst (AppointmentViewSet_create E st rq)))
   \<and> (\<forall>E pk ap. get_object st pk = Some ap \<and> ap_status ap = ACTIVE \<longrightarrow>
         slot_invariant (fst (cancel_user E st pk))
         \<and> slot_invariant (fst (Appointment_save E st (ap\<lparr>ap_status := CANCELLED_MANAGER\<rparr>))))"
proof (intro conjI allI impI)
  assume run: "guarded_run st"
  then have ok: "occupancy_ok st" by (rule guarded_run_occupancy)
  then show "slot_invariant st" by (rule occupancy_ok_invariant)
  from ok show "list_all (\<lambda>s. length (active_on st (s_id s)) \<le> 1) (slots st)"
    by (auto simp: occupancy_ok_def list_all_iff)
  {
    fix E and rq :: create_request and s
    assume "Slot_objects_get st (req_slot_id rq) = Some s \<and> s_status s = FREE"
    then have "guarded_run (fst (AppointmentViewSet_create E st rq))"
      using run by (auto intro: guarded_run.create)
    then show "slot_invariant (fst (AppointmentViewSet_create E st rq))"
      by (intro occupancy_ok_invariant guarded_run_occupancy)
  }
  {
    fix E pk ap
    assume a: "get_object st pk = Some ap \<and> ap_status ap = ACTIVE"
    then have "guarded_run (fst (cancel_user E st pk))"
      using run by (auto intro: guarded_run.by_user)
    then show "slot_invariant (fst (cancel_user E st pk))"
      by (intro occupancy_ok_invariant guarded_run_occupancy)
    from a have "guarded_run (fst (Appointment_save E st (ap\<lparr>ap_status := CANCELLED_MANAGER\<rparr>)))"
      using run by (auto intro: guarded_run.by_manager)
    then show "slot_invariant (fst (Appointment_save E st (ap\<lparr>ap_status := CANCELLED_MANAGER\<rparr>)))"
      by (intro occupancy_ok_invariant guarded_run_occupancy)
  }
qed


text \<open>
  The example fleet and the example booking are such states: the invariant holds after
  the booking, after its user cancels it and after the manager cancels it.
\<close>

theorem guarded_run_slot_invariant_witness:
  "guarded_run fleet \<and> guarded_run booked \<and> slot_invariant booked
   \<and> get_object booked 1 = Some appointment1 \<and> ap_status appointment1 = ACTIVE
   \<and> slot_invariant (fst (cancel_user example_env booked 1))
   \<and> slot_invariant released"
proof -
  have f: "guarded_run fleet"
    using fleet_start by (intro guarded_run.start) simp_all
  then have g: "guarded_run booked"
    unfolding booked_def using fleet_slot [of 1 1] by (intro guarded_run.create) auto
  have "ap_status appointment1 = ACTIVE" by (simp add: appointment1_def)
  with get_object_booked
  have h: "get_object booked 1 = Some appointment1 \<and> ap_status appointment1 = ACTIVE"
    by (rule conjI)
  from guarded_run_slot_invariant [OF f] fleet_slot [of 1 1]
  have "slot_invariant (fst (AppointmentViewSet_create example_env fleet (request 1 1 1)))"
    by blast
  then have b: "slot_invariant booked" by (simp only: booked_def)
  from guarded_run_slot_invariant [OF g] h
  have c: "slot_invariant (fst (cancel_user example_env booked 1))"
    and "slot_invariant (fst (Appointment_save example_env booked
           (appointment1\<lparr>ap_status := CANCELLED_MANAGER\<rparr>)))"
    by blast+
  then have d: "slot_invariant released" by (simp only: released_def)
  from f g b h c d show ?thesis by blast
qed

text \<open>
  The claim as worded, for every operation, fails twice in the example. After the
  manager has cancelled the first appointment and the slot has been booked again, the
  first driver's \<open>cancel_user\<close> on the cancelled appointment sets the slot FREE while
  the second appointment is ACTIVE. And a creation against the slot while it is BUSY
  gives it two ACTIVE appointments. Both states are reached by the operations of the
  claim from a state where the invariant holds.
\<close>

theorem slot_invariant_counterexample:
  "reachable rebooked \<and> slot_invariant rebooked
   \<and> reachable (fst (cancel_user example_env rebooked 1))
   \<and> \<not> slot_invariant (fst (cancel_user example_env rebooked 1))
   \<and> reachable booked \<and> slot_invariant booked
   \<and> reachable double_booked
   \<and> \<not> slot_invariant double_booked"
proof -
  have "reachable fleet"
    using fleet_start by (intro reachable.r_start) simp_all
  then have b: "reachable booked"
    unfolding booked_def by (rule reachable.r_create)
  then have "reachable released"
    unfolding released_def using get_object_booked by (rule reachable.r_by_manager)
  then have r: "reachable rebooked"
    unfolding rebooked_def by (rule reachable.r_create)
  then have c: "reachable (fst (cancel_user example_env rebooked 1))"
    by (rule reachable.r_by_user)
  from b have d: "reachable double_booked"
    unfolding double_booked_def by (rule reachable.r_create)
  have i1: "slot_invariant rebooked"
    by (simp add: slot_invariant_def active_on_def rebooked_eq released_eq slot1_def)
  have i2: "slot_invariant booked"
    by (simp add: slot_invariant_def active_on_def booked_eq slot1_def)
  have n1: "\<not> slot_invariant (fst (cancel_user example_env rebooked 1))"
    using stale_cancel_tables
    by (simp add: slot_invariant_def active_on_by_triples slot1_def)
  have n2: "\<not> slot_invariant double_booked"
    using double_booked_tables
    by (simp add: slot_invariant_def active_on_by_triples slot1_def)
  from b r c d i1 i2 n1 n2 show ?thesis by blast
qed

section \<open>What the create action does not check\<close>

text \<open>
  \<open>Appointment.clean\<close> refuses every appointment whose car is not the car of its
  driver, and every new appointment whose slot is not FREE.
\<close>

lemma Appointment_clean_rejects:
  "Some (d_car_id (ap_driver self)) \<noteq> au_id (ap_car self) \<Longrightarrow>
     Appointment_clean self = Inl (ValidationError msg_car_not_assigned)"
  "Some (d_car_id (ap_driver self)) = au_id (ap_car self) \<Longrightarrow> ap_id self = None \<Longrightarrow>
     s_status (ap_slot self) \<noteq> FREE \<Longrightarrow>
     Appointment_clean self = Inl (ValidationError msg_slot_busy)"
  by (simp_all add: Appointment_clean_def)

text \<open>
  The create action never calls it: when the three keys of the request have rows, the
  answer is 201, whatever the status of the slot and whoever the car belongs to.
\<close>

lemma create_never_refused:
  assumes "Slot_objects_get st (req_slot_id rq) = Some s"
    and "Driver_objects_get st (req_driver rq) = Some d"
    and "Automobile_objects_get st (req_car rq) = Some c"
  shows "\<exists>ap. snd (AppointmentViewSet_create E st rq) = Response (Appointment_data ap) 201"
proof -
  from assms(1) have s1: "s \<in> set (slots st)"
    by (auto simp: Slot_objects_get_def dest: find_SomeD)
  from assms(3) have c1: "au_id c = Some (req_car rq)"
    by (auto simp: Automobile_objects_get_def dest: find_SomeD)
  show ?thesis
    using assms Appointment_save_new [OF c1 s1, of E d "case req_status rq of None \<Rightarrow> ACTIVE | Some v \<Rightarrow> v"]
    by (simp add: AppointmentViewSet_create_def Let_def)
qed

text \<open>
  Claim C4, at a failing input. In the example fleet the first driver asks for the slot
  with the car of the second driver. \<open>clean\<close> would refuse the appointment, and the
  create action answers 201, stores it and sets the slot, which was FREE, to BUSY.
\<close>

theorem create_with_foreign_car_succeeds:
  "Some (d_car_id driver1) \<noteq> au_id car2
   \<and> Appointment_clean (new_appointment slot1 driver1 car2 ACTIVE)
       = Inl (ValidationError msg_car_not_assigned)
   \<and> (\<exists>ap. snd (AppointmentViewSet_create example_env fleet (request 1 1 2))
              = Response (Appointment_data ap) 201
            \<and> ap_driver ap = driver1 \<and> ap_car ap = car2 \<and> ap_status ap = ACTIVE)
   \<and> map s_status (slots fleet) = [FREE]
   \<and> map s_status (slots (fst (AppointmentViewSet_create example_env fleet (request 1 1 2))))
       = [BUSY]
   \<and> map (\<lambda>r. (r_driver_id r, r_car_id r, r_status r))
         (appointments (fst (AppointmentViewSet_create example_env fleet (request 1 1 2))))
       = [(1, 2, ACTIVE)]"
  by (simp add: AppointmentViewSet_create_def Slot_objects_get_def Driver_objects_get_def
      Automobile_objects_get_def fleet_def empty_state_def slot1_def driver1_def driver2_def
      car1_def car2_def example_car_def request_def Appointment_save_def Appointment_super_save_def
      new_appointment_def slot_status_set_def Slot_save_status_def row_of_def fresh_pk_def Let_def
      Appointment_clean_def)

text \<open>
  Claim C2, at a failing input. Two create requests for the FREE slot of the example
  fleet, served one after the other: both are answered 201 and both appointments are
  stored ACTIVE on the slot. The same happens to two appointments built while the slot
  is FREE, both accepted by \<open>clean\<close>, and then saved one after the other: the second
  save tests the slot object it carries, not the row.
\<close>

theorem two_creates_same_slot_both_succeed:
  "map s_status (slots fleet) = [FREE]
   \<and> (\<exists>a. snd (AppointmentViewSet_create example_env fleet (request 1 1 1))
              = Response (Appointment_data a) 201)
   \<and> (\<exists>b. snd (AppointmentViewSet_create example_env
                   (fst (AppointmentViewSet_create example_env fleet (request 1 1 1)))
                   (request 1 2 2))
              = Response (Appointment_data b) 201)
   \<and> map (\<lambda>r. (r_id r, r_slot_id r, r_status r))
         (appointments (fst (AppointmentViewSet_create example_env
                   (fst (AppointmentViewSet_create example_env fleet (request 1 1 1)))
                   (request 1 2 2))))
       = [(1, 1, ACTIVE), (2, 1, ACTIVE)]
   \<and> Appointment_clean (new_appointment slot1 driver1 car1 ACTIVE) = Inr ()
   \<and> Appointment_clean (new_appointment slot1 driver2 car2 ACTIVE) = Inr ()
   \<and> snd (snd (Appointment_save example_env fleet (new_appointment slot1 driver1 car1 ACTIVE)))
       = None
   \<and> snd (snd (Appointment_save example_env
         (fst (Appointment_save example_env fleet (new_appointment slot1 driver1 car1 ACTIVE)))
         (new_appointment slot1 driver2 car2 ACTIVE))) = None
   \<and> map (\<lambda>r. (r_id r, r_slot_id r, r_status r))
         (appointments (fst (Appointment_save example_env
           (fst (Appointment_save example_env fleet (new_appointment slot1 driver1 car1 ACTIVE)))
           (new_appointment slot1 driver2 car2 ACTIVE))))
       = [(1, 1, ACTIVE), (2, 1, ACTIVE)]"
  by (simp add: AppointmentViewSet_create_def Slot_objects_get_def Driver_objects_get_def
      Automobile_objects_get_def fleet_def empty_state_def slot1_def driver1_def driver2_def
      car1_def car2_def example_car_def request_def Appointment_save_def Appointment_super_save_def
      new_appointment_def slot_status_set_def Slot_save_status_def row_of_def fresh_pk_def Let_def
      Appointment_clean_def)

end
